theory Spec2Isabelle
  imports Main "HOL-Library.Word"
begin

section \<open>Status codes and exception types\<close>

text \<open>
  DbgModelClientEx.h is a header-only C++17 library. Its COM-facing adapters return an
  \<open>HRESULT\<close>; inside the library failures are C++ exceptions. An \<open>HRESULT\<close> is a
  32-bit value; the constants are those of the Windows SDK.
\<close>

type_synonym HRESULT = "32 word"

definition S_OK :: HRESULT where "S_OK = 0"
definition E_FAIL :: HRESULT where "E_FAIL = 0x80004005"
definition E_INVALIDARG :: HRESULT where "E_INVALIDARG = 0x80070057"
definition E_OUTOFMEMORY :: HRESULT where "E_OUTOFMEMORY = 0x8007000E"
definition E_BOUNDS :: HRESULT where "E_BOUNDS = 0x8000000B"
definition E_NOTIMPL :: HRESULT where "E_NOTIMPL = 0x80004001"
definition E_UNEXPECTED :: HRESULT where "E_UNEXPECTED = 0x8000FFFF"
definition E_ILLEGAL_METHOD_CALL :: HRESULT where "E_ILLEGAL_METHOD_CALL = 0x8000000E"
definition E_NOT_SET :: HRESULT where "E_NOT_SET = 0x80070490"
definition DISP_E_TYPEMISMATCH :: HRESULT where "DISP_E_TYPEMISMATCH = 0x80020005"

text \<open>
  The exception classes of lines 80-132 together with the standard ones the library
  throws and catches. None of the classes named in the handlers of \<open>ReturnResult\<close>
  derives from another one named there; \<open>object_detached\<close> derives from
  \<open>std::runtime_error\<close> and has no handler of its own. \<open>other_std_exception\<close> is any
  further class derived from \<open>std::exception\<close>, \<open>foreign_exception\<close> anything else
  that can be thrown.
\<close>

datatype exn =
    invalid_argument string
  | bad_alloc
  | range_error string
  | not_implemented string
  | unexpected_error string
  | hr_exception HRESULT string
  | illegal_operation string
  | not_set string
  | object_detached string
  | other_std_exception string
  | foreign_exception

text \<open>
  Inside the library a function that can throw returns \<open>exn + 'a\<close>, with \<open>Inl e\<close> for
  the exception \<open>e\<close>.
\<close>

section \<open>The host's object model\<close>

datatype VARTYPE =
    VT_EMPTY | VT_I1 | VT_UI1 | VT_I2 | VT_UI2 | VT_I4 | VT_UI4 | VT_I8 | VT_UI8
  | VT_R4 | VT_R8 | VT_BOOL | VT_BSTR | VT_UNKNOWN

text \<open>
  A \<open>VARIANT\<close> is a type tag and a union; the library reads and writes the union through
  a pointer to its first byte, so the model keeps the first eight bytes as a 64-bit
  pattern (little endian: a narrower value occupies the low bits).
\<close>

record VARIANT =
  vt :: VARTYPE
  payload :: "64 word"

datatype ModelObjectKind =
    ObjectPropertyAccessor | ObjectContext | ObjectTargetObject
  | ObjectTargetObjectReference | ObjectSynthetic | ObjectNoValue | ObjectError
  | ObjectIntrinsic | ObjectMethod | ObjectKeyReference

datatype IModelObject =
    IntrinsicObject ModelObjectKind VARIANT
  | NoValueObject
  | ErrorObject HRESULT string
  | SyntheticObject nat

text \<open>
  Modelled from the spec: the host (the data model manager and the objects it creates) is
  an external collaborator, not part of this header. Spec section 6 gives it "creation of
  intrinsic dynamic values", "a per-value kind tag", "a convert intrinsic value to requested
  representation operation" and "an error-object factory taking a status code and message".
  A host call that fails is \<open>Inl hr\<close>. Asking an intrinsic object for the representation
  it was created with returns the stored \<open>VARIANT\<close>; any other conversion is the host's
  and is left as the parameter \<open>conv\<close>.
\<close>

definition CreateIntrinsicObject :: "ModelObjectKind \<Rightarrow> VARIANT \<Rightarrow> HRESULT + IModelObject" where
  "CreateIntrinsicObject kind v = Inr (IntrinsicObject kind v)"

definition CreateNoValue :: "HRESULT + IModelObject" where
  "CreateNoValue = Inr NoValueObject"

definition CreateErrorObject :: "HRESULT \<Rightarrow> string \<Rightarrow> HRESULT + IModelObject" where
  "CreateErrorObject hr msg = Inr (ErrorObject hr msg)"

fun GetKind :: "IModelObject \<Rightarrow> HRESULT + ModelObjectKind" where
  "GetKind (IntrinsicObject kind v) = Inr kind"
| "GetKind NoValueObject = Inr ObjectNoValue"
| "GetKind (ErrorObject hr msg) = Inr ObjectError"
| "GetKind (SyntheticObject n) = Inr ObjectSynthetic"

fun GetIntrinsicValueAs ::
  "(VARTYPE \<Rightarrow> VARIANT \<Rightarrow> HRESULT + VARIANT) \<Rightarrow> VARTYPE \<Rightarrow> IModelObject \<Rightarrow> HRESULT + VARIANT" where
  "GetIntrinsicValueAs conv t (IntrinsicObject kind v) = (if vt v = t then Inr v else conv t v)"
| "GetIntrinsicValueAs conv t obj = Inl E_FAIL"

text \<open>
  Modelled from the spec: \<open>MultiByteToWideChar\<close> is the operating system's transcoding
  routine ("strings transcode through a code-page-aware routine"). Narrow and wide strings
  are both \<open>string\<close> here and the code page is taken to be the identity; what matters
  below is that the routine is a function of its input.
\<close>

definition MultiByteToWideChar :: "string \<Rightarrow> string" where
  "MultiByteToWideChar s = s"

section \<open>Conversion between status codes and exceptions\<close>

text \<open>\<open>StringUtils::GetWideString\<close>, lines 192-208: two passes, the first sizes the buffer.\<close>

definition GetWideString :: "string \<Rightarrow> exn + string" where
  "GetWideString pString =
     (let sz = length (MultiByteToWideChar pString) in
      if sz = 0 then Inr []
      else let sz2 = length (MultiByteToWideChar pString) in
           if sz \<noteq> sz2 then Inl (unexpected_error ''Unexpected error'')
           else Inr (MultiByteToWideChar pString))"

text \<open>\<open>Exceptions::ThrowHr\<close> with no error object (\<open>pError = nullptr\<close>), lines 221-270.\<close>

definition ThrowHr :: "HRESULT \<Rightarrow> exn" where
  "ThrowHr hr =
     (let msg = [] in
      if hr = E_INVALIDARG \<or> hr = DISP_E_TYPEMISMATCH then invalid_argument msg
      else if hr = E_OUTOFMEMORY then bad_alloc
      else if hr = E_BOUNDS then range_error msg
      else if hr = E_NOTIMPL then not_implemented msg
      else if hr = E_UNEXPECTED then unexpected_error msg
      else if hr = E_ILLEGAL_METHOD_CALL then illegal_operation msg
      else if hr = E_NOT_SET then not_set msg
      else hr_exception hr msg)"

text \<open>
  \<open>CheckHr\<close>, lines 355-361, applied to the result of a host call: a failing status is
  thrown, otherwise the call's output is used.
\<close>

definition CheckHr :: "HRESULT + 'a \<Rightarrow> exn + 'a" where
  "CheckHr r = (case r of Inl hr \<Rightarrow> Inl (ThrowHr hr) | Inr v \<Rightarrow> Inr v)"

text \<open>
  \<open>Exceptions::ReturnResult\<close>, lines 276-343. The handlers are tried in the order of the
  source. Each handler that has a message transcodes it with \<open>GetWideString\<close>, inside the
  handler: if that throws, the exception leaves \<open>ReturnResult\<close>. \<open>ppError\<close> tells whether
  the caller passed a place for the error object.
\<close>

definition catch_handler :: "HRESULT \<Rightarrow> string \<Rightarrow> exn + (HRESULT \<times> string)" where
  "catch_handler hr what =
     (case GetWideString what of Inl e \<Rightarrow> Inl e | Inr errMsg \<Rightarrow> Inr (hr, errMsg))"

definition ReturnResult :: "exn \<Rightarrow> bool \<Rightarrow> exn + (HRESULT \<times> IModelObject option)" where
  "ReturnResult exception ppError =
     (case (case exception of
              invalid_argument what \<Rightarrow> catch_handler E_INVALIDARG what
            | bad_alloc \<Rightarrow> Inr (E_OUTOFMEMORY, [])
            | range_error what \<Rightarrow> catch_handler E_BOUNDS what
            | not_implemented what \<Rightarrow> catch_handler E_NOTIMPL what
            | unexpected_error what \<Rightarrow> catch_handler E_UNEXPECTED what
            | hr_exception hr what \<Rightarrow> catch_handler hr what
            | illegal_operation what \<Rightarrow> catch_handler E_ILLEGAL_METHOD_CALL what
            | not_set what \<Rightarrow> catch_handler E_NOT_SET what
            | object_detached what \<Rightarrow> catch_handler E_FAIL what
            | other_std_exception what \<Rightarrow> catch_handler E_FAIL what
            | foreign_exception \<Rightarrow> Inr (E_FAIL, []))
      of Inl e \<Rightarrow> Inl e
       | Inr (hr, errMsg) \<Rightarrow>
           if ppError \<and> errMsg \<noteq> [] then
             (case CreateErrorObject hr errMsg of
                Inr spError \<Rightarrow> Inr (hr, Some spError)
              | Inl _ \<Rightarrow> Inr (hr, None))
           else Inr (hr, None))"

section \<open>Boxing and unboxing of native values\<close>

text \<open>
  The native types with a boxer in the header: the intrinsic scalars of
  \<open>BaseIntrinsicTypeTraits\<close> (lines 4730-4806), enumerations boxed through
  \<open>UnderlyingTypeBoxObject\<close> and \<open>std::optional<T>\<close>. \<open>size_t\<close> is
  \<open>unsigned __int64\<close>. A floating point value is its bit pattern: the library only copies it.
\<close>

datatype cpp_type =
    T_char | T_uchar | T_short | T_ushort | T_int | T_uint | T_long | T_ulong
  | T_int64 | T_uint64 | T_float | T_double | T_bool
  | T_enum string cpp_type
  | T_optional cpp_type

datatype native =
    N_char "8 word" | N_uchar "8 word" | N_short "16 word" | N_ushort "16 word"
  | N_int "32 word" | N_uint "32 word" | N_long "32 word" | N_ulong "32 word"
  | N_int64 "64 word" | N_uint64 "64 word" | N_float "32 word" | N_double "64 word"
  | N_bool bool
  | N_enum string native
  | N_optional cpp_type "native option"

fun type_of :: "native \<Rightarrow> cpp_type" where
  "type_of (N_char x) = T_char"
| "type_of (N_uchar x) = T_uchar"
| "type_of (N_short x) = T_short"
| "type_of (N_ushort x) = T_ushort"
| "type_of (N_int x) = T_int"
| "type_of (N_uint x) = T_uint"
| "type_of (N_long x) = T_long"
| "type_of (N_ulong x) = T_ulong"
| "type_of (N_int64 x) = T_int64"
| "type_of (N_uint64 x) = T_uint64"
| "type_of (N_float x) = T_float"
| "type_of (N_double x) = T_double"
| "type_of (N_bool x) = T_bool"
| "type_of (N_enum name x) = T_enum name (type_of x)"
| "type_of (N_optional T x) = T_optional T"

text \<open>The integral types an enumeration may declare as its underlying type.\<close>

fun is_integral :: "cpp_type \<Rightarrow> bool" where
  "is_integral (T_enum name U) = False"
| "is_integral (T_optional T) = False"
| "is_integral T_float = False"
| "is_integral T_double = False"
| "is_integral T = True"

text \<open>
  A value of the model is a value of a C++ type when an enumeration holds a value of an
  integral type and a present optional holds a value of its element type.
\<close>

fun well_typed :: "native \<Rightarrow> bool" where
  "well_typed (N_enum name x) = (is_integral (type_of x) \<and> well_typed x)"
| "well_typed (N_optional T None) = True"
| "well_typed (N_optional T (Some x)) = (type_of x = T \<and> well_typed x)"
| "well_typed x = True"

text \<open>\<open>BaseIntrinsicTypeTraits<T>::VariantType\<close>; \<open>long\<close> is given \<open>VT_UI4\<close> by the source.\<close>

fun VariantType :: "cpp_type \<Rightarrow> VARTYPE" where
  "VariantType T_char = VT_I1"
| "VariantType T_uchar = VT_UI1"
| "VariantType T_short = VT_I2"
| "VariantType T_ushort = VT_UI2"
| "VariantType T_int = VT_I4"
| "VariantType T_uint = VT_UI4"
| "VariantType T_long = VT_UI4"
| "VariantType T_ulong = VT_UI4"
| "VariantType T_int64 = VT_I8"
| "VariantType T_uint64 = VT_UI8"
| "VariantType T_float = VT_R4"
| "VariantType T_double = VT_R8"
| "VariantType T_bool = VT_BOOL"
| "VariantType T = VT_EMPTY"

text \<open>
  \<open>IntrinsicTypeTraits<T>::FillVariant\<close> and \<open>ExtractFromVariant\<close>, lines 4808-4841:
  the value is stored at, and read from, the first bytes of the union. \<open>bool\<close> is stored
  as \<open>VARIANT_TRUE\<close> (\<open>-1\<close> as a 16-bit value) or \<open>VARIANT_FALSE\<close> (\<open>0\<close>).
\<close>

definition VARIANT_TRUE :: "16 word" where "VARIANT_TRUE = - 1"
definition VARIANT_FALSE :: "16 word" where "VARIANT_FALSE = 0"

fun FillVariant :: "native \<Rightarrow> VARIANT" where
  "FillVariant (N_char x) = \<lparr>vt = VariantType T_char, payload = ucast x\<rparr>"
| "FillVariant (N_uchar x) = \<lparr>vt = VariantType T_uchar, payload = ucast x\<rparr>"
| "FillVariant (N_short x) = \<lparr>vt = VariantType T_short, payload = ucast x\<rparr>"
| "FillVariant (N_ushort x) = \<lparr>vt = VariantType T_ushort, payload = ucast x\<rparr>"
| "FillVariant (N_int x) = \<lparr>vt = VariantType T_int, payload = ucast x\<rparr>"
| "FillVariant (N_uint x) = \<lparr>vt = VariantType T_uint, payload = ucast x\<rparr>"
| "FillVariant (N_long x) = \<lparr>vt = VariantType T_long, payload = ucast x\<rparr>"
| "FillVariant (N_ulong x) = \<lparr>vt = VariantType T_ulong, payload = ucast x\<rparr>"
| "FillVariant (N_int64 x) = \<lparr>vt = VariantType T_int64, payload = ucast x\<rparr>"
| "FillVariant (N_uint64 x) = \<lparr>vt = VariantType T_uint64, payload = ucast x\<rparr>"
| "FillVariant (N_float x) = \<lparr>vt = VariantType T_float, payload = ucast x\<rparr>"
| "FillVariant (N_double x) = \<lparr>vt = VariantType T_double, payload = ucast x\<rparr>"
| "FillVariant (N_bool x) = \<lparr>vt = VT_BOOL, payload = ucast (if x then VARIANT_TRUE else VARIANT_FALSE)\<rparr>"
| "FillVariant x = \<lparr>vt = VT_EMPTY, payload = 0\<rparr>"

fun ExtractFromVariant :: "cpp_type \<Rightarrow> VARIANT \<Rightarrow> native" where
  "ExtractFromVariant T_char pVar = N_char (ucast (payload pVar))"
| "ExtractFromVariant T_uchar pVar = N_uchar (ucast (payload pVar))"
| "ExtractFromVariant T_short pVar = N_short (ucast (payload pVar))"
| "ExtractFromVariant T_ushort pVar = N_ushort (ucast (payload pVar))"
| "ExtractFromVariant T_int pVar = N_int (ucast (payload pVar))"
| "ExtractFromVariant T_uint pVar = N_uint (ucast (payload pVar))"
| "ExtractFromVariant T_long pVar = N_long (ucast (payload pVar))"
| "ExtractFromVariant T_ulong pVar = N_ulong (ucast (payload pVar))"
| "ExtractFromVariant T_int64 pVar = N_int64 (ucast (payload pVar))"
| "ExtractFromVariant T_uint64 pVar = N_uint64 (ucast (payload pVar))"
| "ExtractFromVariant T_float pVar = N_float (ucast (payload pVar))"
| "ExtractFromVariant T_double pVar = N_double (ucast (payload pVar))"
| "ExtractFromVariant T_bool pVar = N_bool ((ucast (payload pVar) :: 16 word) = VARIANT_TRUE)"
| "ExtractFromVariant T pVar = N_bool False"

text \<open>
  \<open>BoxObjectIntrinsic<T>::Box\<close> and \<open>::Unbox\<close>, lines 6853-6884. The last equations of
  \<open>VariantType\<close>, \<open>FillVariant\<close> and \<open>ExtractFromVariant\<close> are never reached: the boxers
  below use them at intrinsic types only (elsewhere the source does not compile).
\<close>

definition BoxObjectIntrinsic_Box :: "native \<Rightarrow> exn + IModelObject" where
  "BoxObjectIntrinsic_Box obj =
     (let vtVal = FillVariant obj in CheckHr (CreateIntrinsicObject ObjectIntrinsic vtVal))"

definition BoxObjectIntrinsic_Unbox ::
  "(VARTYPE \<Rightarrow> VARIANT \<Rightarrow> HRESULT + VARIANT) \<Rightarrow> cpp_type \<Rightarrow> IModelObject \<Rightarrow> exn + native" where
  "BoxObjectIntrinsic_Unbox conv T src =
     (case CheckHr (GetIntrinsicValueAs conv (VariantType T) src) of
        Inl e \<Rightarrow> Inl e
      | Inr vtVal \<Rightarrow> Inr (ExtractFromVariant T vtVal))"

text \<open>
  \<open>BoxObject<T>::Box\<close> as the templates select it: \<open>UnderlyingTypeBoxObject\<close> for an
  enumeration (lines 7287-7299), \<open>BoxObject<std::optional<T>>\<close> (lines 7449-7477),
  \<open>BoxObjectIntrinsic\<close> otherwise.
\<close>

fun BoxObject :: "native \<Rightarrow> exn + IModelObject" where
  "BoxObject (N_enum name obj) = BoxObject obj"
| "BoxObject (N_optional T src) =
     (case src of Some v \<Rightarrow> BoxObject v | None \<Rightarrow> CheckHr CreateNoValue)"
| "BoxObject obj = BoxObjectIntrinsic_Box obj"

fun UnboxObject ::
  "(VARTYPE \<Rightarrow> VARIANT \<Rightarrow> HRESULT + VARIANT) \<Rightarrow> cpp_type \<Rightarrow> IModelObject \<Rightarrow> exn + native" where
  "UnboxObject conv (T_enum name U) src =
     (case UnboxObject conv U src of Inl e \<Rightarrow> Inl e | Inr v \<Rightarrow> Inr (N_enum name v))"
| "UnboxObject conv (T_optional T) src =
     (case CheckHr (GetKind src) of
        Inl e \<Rightarrow> Inl e
      | Inr mk \<Rightarrow>
          if mk = ObjectNoValue then Inr (N_optional T None)
          else (case UnboxObject conv T src of
                  Inl e \<Rightarrow> Inl e
                | Inr v \<Rightarrow> Inr (N_optional T (Some v))))"
| "UnboxObject conv T src = BoxObjectIntrinsic_Unbox conv T src"

text \<open>
  The element types whose boxed values are never the no-value marker: everything but an
  optional, and an enumeration of such a type.
\<close>

fun never_boxes_to_no_value :: "cpp_type \<Rightarrow> bool" where
  "never_boxes_to_no_value (T_optional T) = False"
| "never_boxes_to_no_value (T_enum name U) = never_boxes_to_no_value U"
| "never_boxes_to_no_value T = True"

fun optionals_hold_values :: "native \<Rightarrow> bool" where
  "optionals_hold_values (N_enum name x) = optionals_hold_values x"
| "optionals_hold_values (N_optional T None) = True"
| "optionals_hold_values (N_optional T (Some x)) = (never_boxes_to_no_value T \<and> optionals_hold_values x)"
| "optionals_hold_values x = True"

section \<open>Signature analysis\<close>

text \<open>
  A bound function has the C++ signature \<open>TRet(TArgs...)\<close>. A parameter is a value of a
  boxable type, an \<open>Object\<close> (also when passed as \<open>const Object&\<close>) or an \<open>Object *\<close>.
  \<open>size_t\<close> is \<open>unsigned __int64\<close>.
\<close>

datatype arg_type = A_Object | A_ObjectPtr | A_value cpp_type

abbreviation T_size_t :: arg_type where
  "T_size_t \<equiv> A_value T_uint64"

text \<open>
  A slot of the argument tuple. An \<open>Object *\<close> is null or points at an element of the
  dynamic argument array: \<open>Some i\<close> is \<open>ppArgumentPack + i\<close>.
\<close>

datatype slot = S_Object "IModelObject option" | S_ObjectPtr "nat option" | S_value native

datatype compile_error = static_assert_failed string | ill_formed

text \<open>VarArgs unpack analysis, lines 5134-5145.\<close>

definition IsVariableArgumentPosition :: "arg_type list \<Rightarrow> bool" where
  "IsVariableArgumentPosition TArgs = (TArgs = [T_size_t, A_ObjectPtr])"

fun HasVariableArgumentHelper2 :: "arg_type list \<Rightarrow> bool" where
  "HasVariableArgumentHelper2 [TArg1, TArg2] = IsVariableArgumentPosition [TArg1, TArg2]"
| "HasVariableArgumentHelper2 (TArg1 # TArg2 # TArgs) = HasVariableArgumentHelper2 (TArg2 # TArgs)"
| "HasVariableArgumentHelper2 TArgs = False"

definition HasVariableArguments :: "arg_type list \<Rightarrow> bool" where
  "HasVariableArguments TArgs =
     (if length TArgs = 0 then False
      else if length TArgs = 1 then False
      else HasVariableArgumentHelper2 TArgs)"

text \<open>Optional unpack analysis, lines 5162-5230.\<close>

fun IsOptionalArgument :: "arg_type \<Rightarrow> bool" where
  "IsOptionalArgument (A_value (T_optional TOpt)) = True"
| "IsOptionalArgument T = False"

fun IsNonOptionalArgument :: "arg_type \<Rightarrow> bool" where
  "IsNonOptionalArgument (A_value (T_optional TOpt)) = False"
| "IsNonOptionalArgument T = True"

fun HasNonOptionalArguments :: "arg_type list \<Rightarrow> bool" where
  "HasNonOptionalArguments [] = True"
| "HasNonOptionalArguments [T] = IsNonOptionalArgument T"
| "HasNonOptionalArguments (T # TArgs) =
     (if IsVariableArgumentPosition (T # TArgs) then False
      else if IsNonOptionalArgument T then True
      else HasNonOptionalArguments TArgs)"

text \<open>
  \<open>HasOptionalArguments\<close>: the value is computed with the non-short-circuit \<open>|\<close>, so
  \<open>HasNextOptional\<close> and its \<open>static_assert\<close> are instantiated for every suffix of the
  pack that has two or more types. A failed \<open>static_assert\<close> is \<open>Inl\<close>.
\<close>

fun HasOptionalArguments :: "arg_type list \<Rightarrow> compile_error + bool" where
  "HasOptionalArguments [] = Inr False"
| "HasOptionalArguments [T] = Inr (IsOptionalArgument T)"
| "HasOptionalArguments (T # TArgs) =
     (let isCurrentOptional = IsOptionalArgument T in
      case HasOptionalArguments TArgs of
        Inl err \<Rightarrow> Inl err
      | Inr nextOptional \<Rightarrow>
          (let allNextOptional = \<not> HasNonOptionalArguments TArgs in
           if \<not> (\<not> isCurrentOptional \<or> allNextOptional)
           then Inl (static_assert_failed
                  ''Any std::optional<T> must come before any non optional (or non varArgs) argument'')
           else Inr (isCurrentOptional \<or> nextOptional)))"

text \<open>
  \<open>FirstOptionalArgumentPositionHelper\<close>, lines 5238-5244. The primary template gives
  \<open>i + sizeof...(TArgs)\<close> and is selected for the empty pack only; a pack that starts with
  \<open>std::optional<TOpt>\<close> gives \<open>i\<close>; a pack of one other type gives \<open>i + 1\<close>; a longer
  pack recurses on its tail with \<open>i + 1\<close>.
\<close>

fun FirstOptionalArgumentPositionHelper :: "nat \<Rightarrow> arg_type list \<Rightarrow> nat" where
  "FirstOptionalArgumentPositionHelper i [] = i + 0"
| "FirstOptionalArgumentPositionHelper i (T # TArgs) =
     (if IsOptionalArgument T then i
      else if TArgs = [] then i + 1
      else FirstOptionalArgumentPositionHelper (i + 1) TArgs)"

definition FirstOptionalArgumentPosition :: "arg_type list \<Rightarrow> nat" where
  "FirstOptionalArgumentPosition TArgs = FirstOptionalArgumentPositionHelper 0 TArgs"

text \<open>\<open>PackMatchingSize\<close>, lines 5264-5295, and \<open>PackMatchingSize_WithIgnore\<close>, lines 5302-5308.\<close>

definition PackMatchingSize :: "arg_type list \<Rightarrow> compile_error + nat" where
  "PackMatchingSize TArgs =
     (case HasOptionalArguments TArgs of
        Inl err \<Rightarrow> Inl err
      | Inr hasOptional \<Rightarrow>
          (let hasVarArgs = HasVariableArguments TArgs in
           if hasOptional then Inr (FirstOptionalArgumentPosition TArgs)
           else if hasVarArgs then Inr (length TArgs - 2)
           else Inr (length TArgs)))"

fun PackMatchingSize_WithIgnore_Helper :: "nat \<Rightarrow> nat \<Rightarrow> arg_type list \<Rightarrow> compile_error + nat" where
  "PackMatchingSize_WithIgnore_Helper i ignoreCount [] =
     (if i = ignoreCount then PackMatchingSize [] else Inl ill_formed)"
| "PackMatchingSize_WithIgnore_Helper i ignoreCount (TArg1 # TArgs) =
     (if i = ignoreCount then PackMatchingSize (TArg1 # TArgs)
      else PackMatchingSize_WithIgnore_Helper (i + 1) ignoreCount TArgs)"

definition PackMatchingSize_WithIgnore :: "nat \<Rightarrow> arg_type list \<Rightarrow> compile_error + nat" where
  "PackMatchingSize_WithIgnore ignoreCount TArgs =
     (if ignoreCount = 0 then PackMatchingSize TArgs
      else PackMatchingSize_WithIgnore_Helper 0 ignoreCount TArgs)"

section \<open>Unpacking the dynamic arguments\<close>

text \<open>
  \<open>UnpackValues\<close> default-constructs the tuple: \<open>std::tuple\<close> value-initialises its
  elements, so a scalar is zero, an optional is empty and a pointer is null.
\<close>

fun default_value :: "cpp_type \<Rightarrow> native" where
  "default_value T_char = N_char 0"
| "default_value T_uchar = N_uchar 0"
| "default_value T_short = N_short 0"
| "default_value T_ushort = N_ushort 0"
| "default_value T_int = N_int 0"
| "default_value T_uint = N_uint 0"
| "default_value T_long = N_long 0"
| "default_value T_ulong = N_ulong 0"
| "default_value T_int64 = N_int64 0"
| "default_value T_uint64 = N_uint64 0"
| "default_value T_float = N_float 0"
| "default_value T_double = N_double 0"
| "default_value T_bool = N_bool False"
| "default_value (T_enum name U) = N_enum name (default_value U)"
| "default_value (T_optional T) = N_optional T None"

fun default_slot :: "arg_type \<Rightarrow> slot" where
  "default_slot A_Object = S_Object None"
| "default_slot A_ObjectPtr = S_ObjectPtr None"
| "default_slot (A_value T) = S_value (default_value T)"

text \<open>\<open>TupleTypeExtractor\<close>, lines 5359-5397: the pack without its first \<open>extractCount\<close> types.\<close>

definition TupleTypeExtractor :: "nat \<Rightarrow> arg_type list \<Rightarrow> arg_type list" where
  "TupleTypeExtractor extractCount TArgs = drop extractCount TArgs"

text \<open>\<open>VariableUnpacker::UnpackInto\<close>, lines 5322-5341.\<close>

definition VariableUnpacker_UnpackInto :: "nat \<Rightarrow> nat \<Rightarrow> slot list \<Rightarrow> slot list" where
  "VariableUnpacker_UnpackInto i packSize tuple =
     (if i \<ge> packSize then tuple
      else (let variableArgumentCount = packSize - i in
            (tuple[i := S_value (N_uint64 (of_nat variableArgumentCount))])
                  [i + 1 := S_ObjectPtr (Some i)]))"

text \<open>
  \<open>Unpacker<TTuple, i, remaining>\<close>, lines 5320-5357, with \<open>RegularUnpacker::UnpackInto\<close>,
  lines 7831-7852. \<open>unbox\<close> is the family \<open>UnboxObject<ArgType>\<close>, which the user of the
  library extends by specialising \<open>BoxObject\<close>.
\<close>

fun Unpacker ::
  "(arg_type \<Rightarrow> IModelObject \<Rightarrow> exn + slot) \<Rightarrow> arg_type list \<Rightarrow> nat \<Rightarrow> nat \<Rightarrow>
   nat \<Rightarrow> IModelObject list \<Rightarrow> slot list \<Rightarrow> exn + slot list" where
  "Unpacker unbox TTuple i 0 packSize ppArgumentPack tuple = Inr tuple"
| "Unpacker unbox TTuple i (Suc r) packSize ppArgumentPack tuple =
     (if Suc r = 2 \<and> IsVariableArgumentPosition [TTuple ! i, TTuple ! (i + 1)]
      then Inr (VariableUnpacker_UnpackInto i packSize tuple)
      else if i < packSize then
        (case unbox (TTuple ! i) (ppArgumentPack ! i) of
           Inl e \<Rightarrow> Inl e
         | Inr v \<Rightarrow> Unpacker unbox TTuple (i + 1) r packSize ppArgumentPack (tuple[i := v]))
      else Unpacker unbox TTuple (i + 1) r packSize ppArgumentPack tuple)"

definition UnpackValues ::
  "(arg_type \<Rightarrow> IModelObject \<Rightarrow> exn + slot) \<Rightarrow> nat \<Rightarrow> arg_type list \<Rightarrow>
   nat \<Rightarrow> IModelObject list \<Rightarrow> exn + slot list" where
  "UnpackValues unbox tupleExtractionCount TArgs packSize ppArgumentPack =
     (let ArgumentTypes = TupleTypeExtractor tupleExtractionCount TArgs;
          tuple = map default_slot ArgumentTypes
      in Unpacker unbox ArgumentTypes 0 (length TArgs - tupleExtractionCount)
           packSize ppArgumentPack tuple)"

text \<open>
  \<open>UnboxObject<T>\<close> for the parameter types of the model: the boxers of the previous
  section, and \<open>BoxObject<Object>::Unbox\<close> (lines 7413-7424), the identity. There is no
  \<open>BoxObject<Object *>::Unbox\<close>: a signature with an \<open>Object *\<close> outside the variadic
  pair does not compile, and the equation for it only makes the function total.
\<close>

fun UnboxArgument ::
  "(VARTYPE \<Rightarrow> VARIANT \<Rightarrow> HRESULT + VARIANT) \<Rightarrow> arg_type \<Rightarrow> IModelObject \<Rightarrow> exn + slot" where
  "UnboxArgument conv A_Object src = Inr (S_Object (Some src))"
| "UnboxArgument conv (A_value T) src =
     (case UnboxObject conv T src of Inl e \<Rightarrow> Inl e | Inr v \<Rightarrow> Inr (S_value v))"
| "UnboxArgument conv A_ObjectPtr src = Inl foreign_exception"

section \<open>Invoking a bound function\<close>

text \<open>
  \<open>InvokeAndBox::Call\<close>, lines 5479-5513. \<open>func\<close> is the bound function: it receives
  the receiver object, the extra values and the unpacked tuple, and returns \<open>None\<close> when
  its return type is \<open>void\<close>.
\<close>

definition InvokeAndBox_Call ::
  "(IModelObject \<Rightarrow> slot list \<Rightarrow> exn + native option) \<Rightarrow> IModelObject \<Rightarrow> slot list \<Rightarrow>
   slot list \<Rightarrow> exn + IModelObject" where
  "InvokeAndBox_Call func contextObj parameters extraValues =
     (case func contextObj (extraValues @ parameters) of
        Inl e \<Rightarrow> Inl e
      | Inr None \<Rightarrow> CheckHr CreateNoValue
      | Inr (Some result) \<Rightarrow> BoxObject result)"

text \<open>
  \<open>InvokeFunctionFromPack\<close>, lines 5557-5599. The \<open>constexpr\<close> values are computed when
  the template is instantiated, which is when the binding is declared: a failure there is
  \<open>Inl\<close> of the outer sum, and no call exists. The inner sum is the call at run time.
\<close>

definition InvokeFunctionFromPack ::
  "(arg_type \<Rightarrow> IModelObject \<Rightarrow> exn + slot) \<Rightarrow>
   (IModelObject \<Rightarrow> slot list \<Rightarrow> exn + native option) \<Rightarrow> arg_type list \<Rightarrow>
   IModelObject \<Rightarrow> nat \<Rightarrow> IModelObject list \<Rightarrow> slot list \<Rightarrow>
   compile_error + (exn + IModelObject)" where
  "InvokeFunctionFromPack unbox func TArgs contextObj packSize ppArgumentPack extraValues =
     (let extraArgumentCount = length extraValues;
          packIgnoreCount = extraArgumentCount + 1
      in case PackMatchingSize_WithIgnore packIgnoreCount TArgs of
           Inl err \<Rightarrow> Inl err
         | Inr minPackSize \<Rightarrow>
             (let maxStaticPack = length TArgs - packIgnoreCount;
                  isVarArgs = HasVariableArguments TArgs
              in Inr (if packSize < minPackSize \<or> (packSize > maxStaticPack \<and> \<not> isVarArgs)
                      then Inl (invalid_argument ''Illegal number of arguments to method call'')
                      else (case UnpackValues unbox packIgnoreCount TArgs packSize ppArgumentPack of
                              Inl e \<Rightarrow> Inl e
                            | Inr parameters \<Rightarrow>
                                InvokeAndBox_Call func contextObj parameters extraValues))))"

section \<open>The lifetime guard\<close>

text \<open>
  \<open>DataModelReferenceInfo\<close>, lines 6112-6127. The info is held through
  \<open>std::shared_ptr\<close> by the binding and by every adapter made for it, so the model has a
  store of infos and the holders keep an address into it.
\<close>

record DataModelReferenceInfo =
  TypeIsLive :: bool

type_synonym DataModelReference = nat

type_synonym store = "DataModelReference \<Rightarrow> DataModelReferenceInfo"

definition new_DataModelReferenceInfo :: DataModelReferenceInfo where
  "new_DataModelReferenceInfo = \<lparr>TypeIsLive = True\<rparr>"

definition ThrowIfDetached :: "store \<Rightarrow> DataModelReference \<Rightarrow> exn + unit" where
  "ThrowIfDetached h linkRef =
     (if \<not> TypeIsLive (h linkRef)
      then Inl (object_detached ''Attempt to access a detached object'')
      else Inr ())"

text \<open>
  The teardown of a binding: \<open>BaseDataModel::~BaseDataModel\<close>, lines 8937-8955, and
  \<open>SpotLinkReference::~SpotLinkReference\<close>, lines 7022-7028. \<open>m_dataRef\<close> may be null.
\<close>

definition BaseDataModel_dtor :: "DataModelReference option \<Rightarrow> store \<Rightarrow> store" where
  "BaseDataModel_dtor m_dataRef h =
     (case m_dataRef of
        None \<Rightarrow> h
      | Some r \<Rightarrow> h(r := (h r)\<lparr>TypeIsLive := False\<rparr>))"

section \<open>The iteration and indexing adapters\<close>

text \<open>
  What a host-facing method does: it returns its status and outputs, or an exception
  leaves it, or it dereferences a native iterator that does not point at an element
  (undefined behaviour in C++).
\<close>

datatype 'r com_result = Returned 'r | Thrown exn | Undefined

text \<open>
  A native sequence is a list and a cursor into it is an index: \<open>begin()\<close> is \<open>0\<close>,
  \<open>end()\<close> is the length, \<open>*it\<close> is defined below the length only. The projector
  returns a native value or throws. Failure of an allocation (\<open>Make\<close>, \<open>new\<close>) is not
  modelled.
\<close>

record linked =
  m_linkReference :: DataModelReference

record 'a BoundIterator = linked +
  m_generator :: "'a list"
  m_thrown :: "exn option"
  m_itBegin :: nat
  m_itEnd :: nat
  m_itCur :: nat
  m_projector :: "'a \<Rightarrow> exn + native"
  m_srcObject :: IModelObject
  IsRandom :: bool

record 'a BoundIterableBase = linked +
  m_genProjector :: "IModelObject \<Rightarrow> exn + 'a list"
  m_itemProjector :: "'a \<Rightarrow> exn + native"
  IsRandomAccessIterator :: bool

text \<open>\<open>BoundIterator::Reset\<close>, lines 6182-6186.\<close>

definition Reset :: "'a BoundIterator \<Rightarrow> HRESULT com_result \<times> 'a BoundIterator" where
  "Reset it = (Returned S_OK, it\<lparr>m_itCur := m_itBegin it\<rparr>)"

text \<open>
  \<open>IndexerTraits::CreateIndexers\<close> and \<open>FillIndexers\<close>, lines 5009-5111, for a value
  that is not an \<open>IndexedValue\<close>: a random access cursor reports its offset from the start
  when one dimension is asked for, any other cursor reports nothing. \<open>pIdxs\<close> is the local
  array of \<open>GetNext\<close>.
\<close>

definition CreateIndexers ::
  "bool \<Rightarrow> nat \<Rightarrow> nat \<Rightarrow> nat \<Rightarrow> IModelObject option list \<Rightarrow> exn + IModelObject option list" where
  "CreateIndexers isRandom itBegin itCur dimensionality pIndexers =
     (if isRandom \<and> dimensionality = 1 then
        (case BoxObject (N_uint64 (of_int (int itCur - int itBegin))) of
           Inl e \<Rightarrow> Inl e
         | Inr idx \<Rightarrow> Inr (pIndexers[0 := Some idx]))
      else Inr pIndexers)"

definition FillIndexers ::
  "bool \<Rightarrow> nat \<Rightarrow> IModelObject option list \<Rightarrow> IModelObject option list \<Rightarrow> IModelObject option list" where
  "FillIndexers isRandom dimensionality pIndexers ppIndexers =
     (if isRandom \<and> dimensionality = 1 then ppIndexers[0 := pIndexers ! 0] else ppIndexers)"

text \<open>The status that \<open>ReturnResult\<close> gives for an exception.\<close>

definition converted :: "exn \<Rightarrow> HRESULT" where
  "converted e = (case ReturnResult e False of Inl e' \<Rightarrow> E_FAIL | Inr (hr, err) \<Rightarrow> hr)"

text \<open>
  \<open>BoundIterator::GetNext\<close>, lines 6188-6254. The result is the status, \<open>*ppObject\<close>
  and the array \<open>ppIndexers\<close>. The handler stores the exception before it converts it.
\<close>

definition GetNext_catch ::
  "'a BoundIterator \<Rightarrow> exn \<Rightarrow> IModelObject option list \<Rightarrow>
   (HRESULT \<times> IModelObject option \<times> IModelObject option list) com_result \<times> 'a BoundIterator" where
  "GetNext_catch it e ppIndexers =
     ((case ReturnResult e False of
         Inl e' \<Rightarrow> Thrown e'
       | Inr (hr, err) \<Rightarrow> Returned (hr, None, ppIndexers)),
      it\<lparr>m_thrown := Some e\<rparr>)"

definition GetNext ::
  "store \<Rightarrow> nat \<Rightarrow> 'a BoundIterator \<Rightarrow>
   (HRESULT \<times> IModelObject option \<times> IModelObject option list) com_result \<times> 'a BoundIterator" where
  "GetNext h dimensions it =
     (let ppIndexers = replicate dimensions None in
      case ThrowIfDetached h (m_linkReference it) of
        Inl e \<Rightarrow> GetNext_catch it e ppIndexers
      | Inr _ \<Rightarrow>
          (case m_thrown it of
             Some e \<Rightarrow> GetNext_catch it e ppIndexers
           | None \<Rightarrow>
               if m_itCur it = m_itEnd it then (Returned (E_BOUNDS, None, ppIndexers), it)
               else if \<not> m_itCur it < length (m_generator it) then (Undefined, it)
               else
                 (case m_projector it (m_generator it ! m_itCur it) of
                    Inl e \<Rightarrow> GetNext_catch it e ppIndexers
                  | Inr val \<Rightarrow>
                      (case BoxObject val of
                         Inl e \<Rightarrow> GetNext_catch it e ppIndexers
                       | Inr objVal \<Rightarrow>
                           (let pIdxs = replicate (if dimensions > 1 then dimensions else 1) None in
                            case CreateIndexers (IsRandom it) (m_itBegin it) (m_itCur it) dimensions pIdxs of
                              Inl e \<Rightarrow> GetNext_catch it e ppIndexers
                            | Inr pIdxs' \<Rightarrow>
                                (Returned (S_OK, Some objVal,
                                           FillIndexers (IsRandom it) dimensions pIdxs' ppIndexers),
                                 it\<lparr>m_itCur := m_itCur it + 1\<rparr>))))))"

text \<open>\<open>BoundIterableBase::GetIterator\<close>, lines 6314-6361.\<close>

definition GetIterator ::
  "store \<Rightarrow> ('a, 'z) BoundIterableBase_scheme \<Rightarrow> IModelObject \<Rightarrow>
   (HRESULT \<times> 'a BoundIterator option) com_result" where
  "GetIterator h this pContextObject =
     (case (case ThrowIfDetached h (m_linkReference this) of
              Inl e \<Rightarrow> Inl e
            | Inr _ \<Rightarrow>
                (case m_genProjector this pContextObject of
                   Inl e \<Rightarrow> Inl e
                 | Inr generator \<Rightarrow>
                     (let itBegin = 0; itEnd = length generator in
                      Inr \<lparr>m_linkReference = m_linkReference this,
                           m_generator = generator, m_thrown = None,
                           m_itBegin = itBegin, m_itEnd = itEnd, m_itCur = itBegin,
                           m_projector = m_itemProjector this,
                           m_srcObject = pContextObject,
                           IsRandom = IsRandomAccessIterator this\<rparr>)))
      of Inr spIter \<Rightarrow> Returned (S_OK, Some spIter)
       | Inl e \<Rightarrow>
           (case ReturnResult e False of
              Inl e' \<Rightarrow> Thrown e'
            | Inr (hr, err) \<Rightarrow> Returned (hr, None)))"

text \<open>
  \<open>BoundIterableIndexableBase::GetAt\<close> and \<open>::SetAt\<close>, lines 6435-6489: the linear
  indexer of a random access sequence. \<open>indexerCount\<close> is the length of \<open>ppIndexers\<close>;
  \<open>size_t\<close> has 64 bits. On failure \<open>*ppObject\<close> receives the error object.
\<close>

definition GetAt_catch :: "exn \<Rightarrow> (HRESULT \<times> IModelObject option) com_result" where
  "GetAt_catch e =
     (case ReturnResult e True of
        Inl e' \<Rightarrow> Thrown e'
      | Inr (hr, err) \<Rightarrow> Returned (hr, err))"

definition GetAt ::
  "(VARTYPE \<Rightarrow> VARIANT \<Rightarrow> HRESULT + VARIANT) \<Rightarrow> store \<Rightarrow> ('a, 'z) BoundIterableBase_scheme \<Rightarrow>
   IModelObject \<Rightarrow> IModelObject list \<Rightarrow> (HRESULT \<times> IModelObject option) com_result" where
  "GetAt conv h this pContextObject ppIndexers =
     (let indexerCount = length ppIndexers in
      case ThrowIfDetached h (m_linkReference this) of
        Inl e \<Rightarrow> GetAt_catch e
      | Inr _ \<Rightarrow>
          if indexerCount \<noteq> 1 then Returned (E_INVALIDARG, None)
          else
            (case m_genProjector this pContextObject of
               Inl e \<Rightarrow> GetAt_catch e
             | Inr instanceRef \<Rightarrow>
                 (let itBegin = 0 in
                  case CheckHr (GetIntrinsicValueAs conv VT_UI8 (ppIndexers ! 0)) of
                    Inl e \<Rightarrow> GetAt_catch e
                  | Inr vtIdx \<Rightarrow>
                      (let stIdx = unat (payload vtIdx);
                           delta = length instanceRef - itBegin
                       in if stIdx > delta then Returned (E_BOUNDS, None)
                          else
                            (let itCur = itBegin + stIdx in
                             if \<not> itCur < length instanceRef then Undefined
                             else
                               (case m_itemProjector this (instanceRef ! itCur) of
                                  Inl e \<Rightarrow> GetAt_catch e
                                | Inr val \<Rightarrow>
                                    (case BoxObject val of
                                       Inl e \<Rightarrow> GetAt_catch e
                                     | Inr valObject \<Rightarrow> Returned (S_OK, Some valObject))))))))"

definition SetAt ::
  "('a, 'z) BoundIterableBase_scheme \<Rightarrow> IModelObject \<Rightarrow> IModelObject list \<Rightarrow> IModelObject \<Rightarrow>
   HRESULT com_result" where
  "SetAt this pContextObject ppIndexers pValue = Returned E_NOTIMPL"

text \<open>
  \<open>BoundIterableWithIndexable\<close>, lines 6501-6629: the indexer is a pair of bound
  functions. \<open>m_getAtFunction\<close> and \<open>m_setAtFunction\<close> stand for
  \<open>InvokeFunctionFromPack\<close> instantiated with the two functors (the receiver, the number
  of indexers and the indexers; the setter also takes the unboxed value), and
  \<open>unboxValue\<close> for the conversion \<open>(ValueType)valueObj\<close>.
\<close>

record 'a BoundIterableWithIndexable = "'a BoundIterableBase" +
  Dimensionality :: nat
  m_getAtFunction :: "IModelObject \<Rightarrow> nat \<Rightarrow> IModelObject list \<Rightarrow> exn + IModelObject"
  m_setAtFunction :: "IModelObject \<Rightarrow> nat \<Rightarrow> IModelObject list \<Rightarrow> slot \<Rightarrow> exn + IModelObject"
  unboxValue :: "IModelObject \<Rightarrow> exn + slot"

definition WithIndexable_GetAt ::
  "store \<Rightarrow> 'a BoundIterableWithIndexable \<Rightarrow> IModelObject \<Rightarrow> IModelObject list \<Rightarrow>
   (HRESULT \<times> IModelObject option) com_result" where
  "WithIndexable_GetAt h this pContextObject ppIndexers =
     (let indexerCount = length ppIndexers in
      case ThrowIfDetached h (m_linkReference this) of
        Inl e \<Rightarrow> GetAt_catch e
      | Inr _ \<Rightarrow>
          if indexerCount \<noteq> Dimensionality this then Returned (E_INVALIDARG, None)
          else
            (case m_getAtFunction this pContextObject indexerCount ppIndexers of
               Inl e \<Rightarrow> GetAt_catch e
             | Inr idxVal \<Rightarrow> Returned (S_OK, Some idxVal)))"

definition SetAt_catch :: "exn \<Rightarrow> HRESULT com_result" where
  "SetAt_catch e =
     (case ReturnResult e False of
        Inl e' \<Rightarrow> Thrown e'
      | Inr (hr, err) \<Rightarrow> Returned hr)"

definition WithIndexable_SetAt ::
  "store \<Rightarrow> 'a BoundIterableWithIndexable \<Rightarrow> IModelObject \<Rightarrow> IModelObject list \<Rightarrow>
   IModelObject \<Rightarrow> HRESULT com_result" where
  "WithIndexable_SetAt h this pContextObject ppIndexers pValue =
     (let indexerCount = length ppIndexers in
      case ThrowIfDetached h (m_linkReference this) of
        Inl e \<Rightarrow> SetAt_catch e
      | Inr _ \<Rightarrow>
          if indexerCount \<noteq> Dimensionality this then Returned E_INVALIDARG
          else
            (case unboxValue this pValue of
               Inl e \<Rightarrow> SetAt_catch e
             | Inr val \<Rightarrow>
                 (case m_setAtFunction this pContextObject indexerCount ppIndexers val of
                    Inl e \<Rightarrow> SetAt_catch e
                  | Inr dummyReturn \<Rightarrow> Returned S_OK)))"

text \<open>
  \<open>BoxedMethod::Call\<close>, lines 5848-5866, the entry point of a bound method:
  \<open>InvokeMethodFromPack\<close> is \<open>InvokeFunctionFromPack\<close> with no extra values. \<open>invoke\<close>
  is the instantiated template.
\<close>

definition Call ::
  "(IModelObject \<Rightarrow> nat \<Rightarrow> IModelObject list \<Rightarrow> exn + IModelObject) \<Rightarrow> IModelObject \<Rightarrow>
   IModelObject list \<Rightarrow> (HRESULT \<times> IModelObject option) com_result" where
  "Call invoke pContextObject ppArguments =
     (let argCount = length ppArguments in
      case invoke pContextObject argCount ppArguments of
        Inl e \<Rightarrow> GetAt_catch e
      | Inr result \<Rightarrow> Returned (S_OK, Some result))"

section \<open>Traversals\<close>




section \<open>A binding with its adapters\<close>

text \<open>
  A native binding owns the lifetime info at \<open>m_dataRef\<close>; the adapters the binding layer
  made for it and the iterator the host currently holds keep copies of that reference.
  The host calls the adapters in any order; the owner of the native instance may tear the
  binding down between two calls.
\<close>

record 'a world =
  infos :: store
  m_dataRef :: DataModelReference
  iterable :: "'a BoundIterableBase"
  indexable :: "'a BoundIterableWithIndexable"
  iterator :: "'a BoundIterator option"

datatype event =
    Ev_Teardown
  | Ev_GetIterator IModelObject
  | Ev_GetNext nat
  | Ev_Reset
  | Ev_GetAt IModelObject "IModelObject list"
  | Ev_IndexedGetAt IModelObject "IModelObject list"
  | Ev_IndexedSetAt IModelObject "IModelObject list" IModelObject

fun status :: "(HRESULT \<times> 'x) com_result \<Rightarrow> HRESULT com_result" where
  "status (Returned r) = Returned (fst r)"
| "status (Thrown e) = Thrown e"
| "status Undefined = Undefined"

text \<open>The status the host sees for an event; \<open>None\<close> when the event is no call into an adapter.\<close>

fun step ::
  "(VARTYPE \<Rightarrow> VARIANT \<Rightarrow> HRESULT + VARIANT) \<Rightarrow> 'a world \<Rightarrow> event \<Rightarrow>
   HRESULT com_result option \<times> 'a world" where
  "step conv w Ev_Teardown = (None, w\<lparr>infos := BaseDataModel_dtor (Some (m_dataRef w)) (infos w)\<rparr>)"
| "step conv w (Ev_GetIterator obj) =
     (case GetIterator (infos w) (iterable w) obj of
        Returned (hr, Some it) \<Rightarrow> (Some (Returned hr), w\<lparr>iterator := Some it\<rparr>)
      | r \<Rightarrow> (Some (status r), w))"
| "step conv w (Ev_GetNext dimensions) =
     (case iterator w of
        None \<Rightarrow> (None, w)
      | Some it \<Rightarrow>
          (case GetNext (infos w) dimensions it of
             (r, it') \<Rightarrow> (Some (status r), w\<lparr>iterator := Some it'\<rparr>)))"
| "step conv w Ev_Reset =
     (case iterator w of
        None \<Rightarrow> (None, w)
      | Some it \<Rightarrow> (case Reset it of (r, it') \<Rightarrow> (Some r, w\<lparr>iterator := Some it'\<rparr>)))"
| "step conv w (Ev_GetAt obj idxs) = (Some (status (GetAt conv (infos w) (iterable w) obj idxs)), w)"
| "step conv w (Ev_IndexedGetAt obj idxs) =
     (Some (status (WithIndexable_GetAt (infos w) (indexable w) obj idxs)), w)"
| "step conv w (Ev_IndexedSetAt obj idxs v) =
     (Some (WithIndexable_SetAt (infos w) (indexable w) obj idxs v), w)"

fun run ::
  "(VARTYPE \<Rightarrow> VARIANT \<Rightarrow> HRESULT + VARIANT) \<Rightarrow> 'a world \<Rightarrow> event list \<Rightarrow>
   HRESULT com_result option list \<times> 'a world" where
  "run conv w [] = ([], w)"
| "run conv w (ev # evs) =
     (case step conv w ev of
        (r, w') \<Rightarrow> (case run conv w' evs of (rs, w'') \<Rightarrow> (r # rs, w'')))"

text \<open>The adapters and the iterator of a binding hold the binding's reference.\<close>

definition bound :: "'a world \<Rightarrow> bool" where
  "bound w =
     (m_linkReference (iterable w) = m_dataRef w \<and>
      m_linkReference (indexable w) = m_dataRef w \<and>
      (case iterator w of None \<Rightarrow> True | Some it \<Rightarrow> m_linkReference it = m_dataRef w))"

text \<open>The events that call a method which uses the native instance.\<close>

fun dereferences :: "event \<Rightarrow> bool" where
  "dereferences Ev_Teardown = False"
| "dereferences Ev_Reset = False"
| "dereferences ev = True"

section \<open>Examples\<close>

text \<open>
  The scenario of the spec: the native collection \<open>[10, 20, 30]\<close> of \<open>int\<close>, bound with
  the default item projector (the identity) and the linear indexer.
\<close>

definition live_store :: store where
  "live_store = (\<lambda>r. new_DataModelReferenceInfo)"

definition no_conv :: "VARTYPE \<Rightarrow> VARIANT \<Rightarrow> HRESULT + VARIANT" where
  "no_conv t v = Inl DISP_E_TYPEMISMATCH"

definition collection :: "32 word BoundIterableBase" where
  "collection =
     \<lparr>m_linkReference = 0,
      m_genProjector = (\<lambda>obj. Inr [10, 20, 30]),
      m_itemProjector = (\<lambda>x. Inr (N_int x)),
      IsRandomAccessIterator = True\<rparr>"

definition boxed_int :: "32 word \<Rightarrow> IModelObject" where
  "boxed_int x = IntrinsicObject ObjectIntrinsic \<lparr>vt = VT_I4, payload = ucast x\<rparr>"

definition boxed_index :: "64 word \<Rightarrow> IModelObject" where
  "boxed_index i = IntrinsicObject ObjectIntrinsic \<lparr>vt = VT_UI8, payload = i\<rparr>"

text \<open>An iterator over one element whose projection throws.\<close>

definition failing_iterator :: "32 word BoundIterator" where
  "failing_iterator =
     \<lparr>m_linkReference = 0,
      m_generator = [10], m_thrown = None,
      m_itBegin = 0, m_itEnd = 1, m_itCur = 0,
      m_projector = (\<lambda>x. Inl (range_error ''out of range'')),
      m_srcObject = SyntheticObject 0,
      IsRandom = True\<rparr>"

text \<open>The same iterator after its step has failed, and a store in which every binding is torn down.\<close>

definition failed_iterator :: "32 word BoundIterator" where
  "failed_iterator = failing_iterator\<lparr>m_thrown := Some (range_error ''out of range'')\<rparr>"

definition dead_store :: store where
  "dead_store = (\<lambda>r. \<lparr>TypeIsLive = False\<rparr>)"

text \<open>
  The same collection with an indexer made of two bound functions, and the binding that
  owns both adapters.
\<close>

definition indexed_collection :: "32 word BoundIterableWithIndexable" where
  "indexed_collection =
     \<lparr>m_linkReference = 0,
      m_genProjector = (\<lambda>obj. Inr [10, 20, 30]),
      m_itemProjector = (\<lambda>x. Inr (N_int x)),
      IsRandomAccessIterator = True,
      Dimensionality = 1,
      m_getAtFunction = (\<lambda>obj n idxs. Inr (hd idxs)),
      m_setAtFunction = (\<lambda>obj n idxs v. Inr NoValueObject),
      unboxValue = (\<lambda>v. Inr (S_Object (Some v)))\<rparr>"

definition binding :: "32 word world" where
  "binding =
     \<lparr>infos = live_store, m_dataRef = 0, iterable = collection,
      indexable = indexed_collection, iterator = None\<rparr>"

section \<open>The shape of a signature\<close>

text \<open>
  The words of the spec about signatures. A slot is in the trailing variadic pair when the
  signature ends with \<open>(size_t, Object *)\<close> and the slot is one of these two. A signature
  has a required parameter after an optional one when some optional slot is followed,
  anywhere later, by a slot that is not optional and not in the trailing variadic pair.
\<close>

definition in_variadic_pair :: "arg_type list \<Rightarrow> nat \<Rightarrow> bool" where
  "in_variadic_pair TArgs j = (HasVariableArguments TArgs \<and> length TArgs - 2 \<le> j)"

definition required_after_optional :: "arg_type list \<Rightarrow> bool" where
  "required_after_optional TArgs =
     (\<exists>i<length TArgs. \<exists>j<length TArgs.
        i < j \<and> IsOptionalArgument (TArgs ! i) \<and> IsNonOptionalArgument (TArgs ! j) \<and>
        \<not> in_variadic_pair TArgs j)"

text \<open>The number of slots of a tuple that are unpacked one argument each.\<close>

definition regular_slots :: "arg_type list \<Rightarrow> nat" where
  "regular_slots TTuple = (if HasVariableArguments TTuple then length TTuple - 2 else length TTuple)"

text \<open>
  Example signatures, after the receiver: \<open>(int, std::optional<int>, size_t, Object *)\<close>,
  and \<open>(std::optional<int>, int)\<close>, which breaks the ordering rule. The bound function of
  the first returns the number of variadic arguments it was given.
\<close>

definition variadic_signature :: "arg_type list" where
  "variadic_signature = [A_Object, A_value T_int, A_value (T_optional T_int), T_size_t, A_ObjectPtr]"

definition misordered_signature :: "arg_type list" where
  "misordered_signature = [A_Object, A_value (T_optional T_int), A_value T_int]"

fun count_of :: "slot \<Rightarrow> native option" where
  "count_of (S_value v) = Some v"
| "count_of s = None"

definition variadic_function :: "IModelObject \<Rightarrow> slot list \<Rightarrow> exn + native option" where
  "variadic_function contextObj args = Inr (count_of (args ! 2))"


section \<open>The host's error channel, in the words of the spec\<close>

text \<open>
  What the spec says the host receives for a raised condition: the status code of the
  table, and an error object that carries the message when the entry point has a place
  for it and the condition has a message. \<open>bad_alloc\<close> and a foreign exception (one that
  is not derived from \<open>std::exception\<close>) carry no message.
\<close>

fun status_code :: "exn \<Rightarrow> HRESULT" where
  "status_code (invalid_argument m) = E_INVALIDARG"
| "status_code bad_alloc = E_OUTOFMEMORY"
| "status_code (range_error m) = E_BOUNDS"
| "status_code (not_implemented m) = E_NOTIMPL"
| "status_code (unexpected_error m) = E_UNEXPECTED"
| "status_code (illegal_operation m) = E_ILLEGAL_METHOD_CALL"
| "status_code (not_set m) = E_NOT_SET"
| "status_code (hr_exception hr m) = hr"
| "status_code (object_detached m) = E_FAIL"
| "status_code (other_std_exception m) = E_FAIL"
| "status_code foreign_exception = E_FAIL"

fun message_of :: "exn \<Rightarrow> string" where
  "message_of (invalid_argument m) = m"
| "message_of bad_alloc = []"
| "message_of (range_error m) = m"
| "message_of (not_implemented m) = m"
| "message_of (unexpected_error m) = m"
| "message_of (illegal_operation m) = m"
| "message_of (not_set m) = m"
| "message_of (hr_exception hr m) = m"
| "message_of (object_detached m) = m"
| "message_of (other_std_exception m) = m"
| "message_of foreign_exception = []"

definition error_object :: "bool \<Rightarrow> exn \<Rightarrow> IModelObject option" where
  "error_object place e =
     (if place \<and> message_of e \<noteq> [] then Some (ErrorObject (status_code e) (message_of e)) else None)"

text \<open>A bound method whose native function rejects every call.\<close>

definition rejecting_method :: "IModelObject \<Rightarrow> nat \<Rightarrow> IModelObject list \<Rightarrow> exn + IModelObject" where
  "rejecting_method contextObj argCount args =
     Inl (invalid_argument ''Illegal number of arguments to method call'')"

section \<open>Sequences of calls on an iterator\<close>

text \<open>
  The host calls \<open>GetNext\<close> and \<open>Reset\<close> on an iterator it holds, in any order; each
  \<open>GetNext\<close> finds the lifetime infos as they are at that moment and asks for some number
  of indexers. \<open>calls\<close> collects what the \<open>GetNext\<close> calls return and the iterator as the
  calls leave it.
\<close>

datatype iterator_call = Do_GetNext store nat | Do_Reset

fun calls ::
  "iterator_call list \<Rightarrow> 'a BoundIterator \<Rightarrow>
   (HRESULT \<times> IModelObject option \<times> IModelObject option list) com_result list \<times> 'a BoundIterator" where
  "calls [] it = ([], it)"
| "calls (Do_GetNext h dimensions # cs) it =
     (case GetNext h dimensions it of
        (r, it') \<Rightarrow> (case calls cs it' of (rs, it'') \<Rightarrow> (r # rs, it'')))"
| "calls (Do_Reset # cs) it = (case Reset it of (r, it') \<Rightarrow> calls cs it')"

text \<open>
  The words of the spec about a sticky iterator: every \<open>GetNext\<close> of the sequence reports
  the same status and produces no object and no indexer.
\<close>

fun repeated ::
  "HRESULT \<Rightarrow> iterator_call list \<Rightarrow>
   (HRESULT \<times> IModelObject option \<times> IModelObject option list) com_result list" where
  "repeated hr [] = []"
| "repeated hr (Do_GetNext h dimensions # cs) =
     Returned (hr, None, replicate dimensions None) # repeated hr cs"
| "repeated hr (Do_Reset # cs) = repeated hr cs"

text \<open>Every \<open>GetNext\<close> of the sequence finds the lifetime flag behind \<open>linkRef\<close> as \<open>live\<close> says.\<close>

fun flag_is :: "bool \<Rightarrow> DataModelReference \<Rightarrow> iterator_call list \<Rightarrow> bool" where
  "flag_is live linkRef [] = True"
| "flag_is live linkRef (Do_GetNext h dimensions # cs) =
     (TypeIsLive (h linkRef) = live \<and> flag_is live linkRef cs)"
| "flag_is live linkRef (Do_Reset # cs) = flag_is live linkRef cs"

fun has_Reset :: "iterator_call list \<Rightarrow> bool" where
  "has_Reset [] = False"
| "has_Reset (Do_GetNext h dimensions # cs) = has_Reset cs"
| "has_Reset (Do_Reset # cs) = True"

text \<open>An iterator over the collection \<open>[10, 20, 30]\<close> that has been drained.\<close>

definition finished_iterator :: "32 word BoundIterator" where
  "finished_iterator =
     \<lparr>m_linkReference = 0,
      m_generator = [10, 20, 30], m_thrown = None,
      m_itBegin = 0, m_itEnd = 3, m_itCur = 3,
      m_projector = (\<lambda>x. Inr (N_int x)),
      m_srcObject = SyntheticObject 0,
      IsRandom = True\<rparr>"

section \<open>A held native sequence\<close>












section \<open>Properties of the conversion of exceptions\<close>

lemma GetWideString_eq: "GetWideString s = Inr s"
  by (simp add: GetWideString_def MultiByteToWideChar_def Let_def)

lemma catch_handler_eq: "catch_handler hr w = Inr (hr, w)"
  by (simp add: catch_handler_def GetWideString_eq)

lemma ReturnResult_Inr: "\<exists>hr err. ReturnResult e pp = Inr (hr, err)"
  by (cases e) (simp_all add: ReturnResult_def catch_handler_eq CreateErrorObject_def)

lemma ReturnResult_no_place: "\<exists>hr. ReturnResult e False = Inr (hr, None)"
  by (cases e) (simp_all add: ReturnResult_def catch_handler_eq CreateErrorObject_def)

lemma ReturnResult_converted: "ReturnResult e False = Inr (converted e, None)"
  using ReturnResult_no_place [of e] by (auto simp: converted_def)

lemma ReturnResult_detached:
  "ReturnResult (object_detached ''Attempt to access a detached object'') False = Inr (E_FAIL, None)"
  "ReturnResult (object_detached ''Attempt to access a detached object'') True =
     Inr (E_FAIL, Some (ErrorObject E_FAIL ''Attempt to access a detached object''))"
  by (simp_all add: ReturnResult_def catch_handler_eq CreateErrorObject_def)

lemma converted_detached: "converted (object_detached m) = E_FAIL"
  by (simp add: converted_def ReturnResult_def catch_handler_eq)

lemma converted_range_error: "converted (range_error m) = E_BOUNDS"
  by (simp add: converted_def ReturnResult_def catch_handler_eq)


lemma E_FAIL_neq_E_BOUNDS: "E_FAIL \<noteq> E_BOUNDS"
  by (simp add: E_FAIL_def E_BOUNDS_def)

lemma GetNext_catch_eq:
  "GetNext_catch it e idxs = (Returned (converted e, None, idxs), it\<lparr>m_thrown := Some e\<rparr>)"
  by (simp add: GetNext_catch_def ReturnResult_converted)

lemma GetNext_not_Thrown: "fst (GetNext h d it) \<noteq> Thrown e'"
  by (simp add: GetNext_def Let_def GetNext_catch_eq split: sum.splits option.splits)

lemma GetAt_catch_not_Thrown: "GetAt_catch e \<noteq> Thrown e'"
  using ReturnResult_Inr [of e True] by (auto simp: GetAt_catch_def)

lemma SetAt_catch_not_Thrown: "SetAt_catch e \<noteq> Thrown e'"
  using ReturnResult_Inr [of e False] by (auto simp: SetAt_catch_def)

lemma GetIterator_not_Thrown: "GetIterator h this obj \<noteq> Thrown e'"
  by (simp add: GetIterator_def Let_def ReturnResult_converted split: sum.splits)

lemma GetAt_not_Thrown: "GetAt conv h this obj idxs \<noteq> Thrown e'"
  by (simp add: GetAt_def Let_def GetAt_catch_not_Thrown split: sum.splits)

lemma WithIndexable_GetAt_not_Thrown: "WithIndexable_GetAt h this obj idxs \<noteq> Thrown e'"
  by (simp add: WithIndexable_GetAt_def Let_def GetAt_catch_not_Thrown split: sum.splits)

lemma WithIndexable_SetAt_not_Thrown: "WithIndexable_SetAt h this obj idxs v \<noteq> Thrown e'"
  by (simp add: WithIndexable_SetAt_def Let_def SetAt_catch_not_Thrown split: sum.splits)

lemma Call_not_Thrown: "Call invoke obj args \<noteq> Thrown e'"
  by (simp add: Call_def Let_def GetAt_catch_not_Thrown split: sum.splits)

lemma ReturnResult_table:
  "ReturnResult (invalid_argument m) pp =
     Inr (E_INVALIDARG, if pp \<and> m \<noteq> [] then Some (ErrorObject E_INVALIDARG m) else None)"
  "ReturnResult bad_alloc pp = Inr (E_OUTOFMEMORY, None)"
  "ReturnResult (range_error m) pp =
     Inr (E_BOUNDS, if pp \<and> m \<noteq> [] then Some (ErrorObject E_BOUNDS m) else None)"
  "ReturnResult (not_implemented m) pp =
     Inr (E_NOTIMPL, if pp \<and> m \<noteq> [] then Some (ErrorObject E_NOTIMPL m) else None)"
  "ReturnResult (unexpected_error m) pp =
     Inr (E_UNEXPECTED, if pp \<and> m \<noteq> [] then Some (ErrorObject E_UNEXPECTED m) else None)"
  "ReturnResult (illegal_operation m) pp =
     Inr (E_ILLEGAL_METHOD_CALL,
          if pp \<and> m \<noteq> [] then Some (ErrorObject E_ILLEGAL_METHOD_CALL m) else None)"
  "ReturnResult (not_set m) pp =
     Inr (E_NOT_SET, if pp \<and> m \<noteq> [] then Some (ErrorObject E_NOT_SET m) else None)"
  "ReturnResult (hr_exception hr m) pp =
     Inr (hr, if pp \<and> m \<noteq> [] then Some (ErrorObject hr m) else None)"
  "ReturnResult (object_detached m) pp =
     Inr (E_FAIL, if pp \<and> m \<noteq> [] then Some (ErrorObject E_FAIL m) else None)"
  "ReturnResult (other_std_exception m) pp =
     Inr (E_FAIL, if pp \<and> m \<noteq> [] then Some (ErrorObject E_FAIL m) else None)"
  "ReturnResult foreign_exception pp = Inr (E_FAIL, None)"
  by (simp_all add: ReturnResult_def catch_handler_eq CreateErrorObject_def)

section \<open>Properties of the iterator\<close>

lemma GetNext_detached:
  "\<not> TypeIsLive (h (m_linkReference it)) \<Longrightarrow>
   GetNext h d it =
     (Returned (E_FAIL, None, replicate d None),
      it\<lparr>m_thrown := Some (object_detached ''Attempt to access a detached object'')\<rparr>)"
  by (simp add: GetNext_def ThrowIfDetached_def GetNext_catch_eq converted_detached)

lemma GetNext_rethrow:
  "TypeIsLive (h (m_linkReference it)) \<Longrightarrow> m_thrown it = Some e \<Longrightarrow>
   GetNext h d it = (Returned (converted e, None, replicate d None), it)"
  by (simp add: GetNext_def ThrowIfDetached_def GetNext_catch_eq)

lemma GetNext_end:
  "TypeIsLive (h (m_linkReference it)) \<Longrightarrow> m_thrown it = None \<Longrightarrow> m_itCur it = m_itEnd it \<Longrightarrow>
   GetNext h d it = (Returned (E_BOUNDS, None, replicate d None), it)"
  by (simp add: GetNext_def ThrowIfDetached_def)

lemma GetNext_no_object:
  assumes "GetNext h d it = (Returned (hr, None, idxs), it')"
  shows "(\<not> TypeIsLive (h (m_linkReference it)) \<and> hr = E_FAIL \<and>
            it' = it\<lparr>m_thrown := Some (object_detached ''Attempt to access a detached object'')\<rparr>)
       \<or> (TypeIsLive (h (m_linkReference it)) \<and> (\<exists>e. hr = converted e \<and> it' = it\<lparr>m_thrown := Some e\<rparr>))
       \<or> (TypeIsLive (h (m_linkReference it)) \<and> m_thrown it = None \<and> m_itCur it = m_itEnd it \<and>
            hr = E_BOUNDS \<and> it' = it)"
proof (cases "TypeIsLive (h (m_linkReference it))")
  case False
  with assms show ?thesis by (simp add: GetNext_detached)
next
  case True
  show ?thesis
  proof (cases "m_thrown it")
    case (Some e)
    with True assms have "hr = converted e \<and> it' = it" by (simp add: GetNext_rethrow)
    with True Some show ?thesis by auto
  next
    case None
    with True assms show ?thesis
      by (auto simp: GetNext_def ThrowIfDetached_def GetNext_catch_eq Let_def
               split: sum.splits if_splits)
  qed
qed

lemma GetNext_link: "m_linkReference (snd (GetNext h d it)) = m_linkReference it"
  by (simp add: GetNext_def GetNext_catch_eq Let_def split: sum.splits option.splits)

lemma failing_iterator_step:
  "GetNext live_store 1 failing_iterator = (Returned (E_BOUNDS, None, [None]), failed_iterator)"
  by (simp add: GetNext_def failing_iterator_def failed_iterator_def live_store_def
        new_DataModelReferenceInfo_def ThrowIfDetached_def GetNext_catch_eq converted_range_error)

lemma replicate_one: "replicate 1 x = [x]"
  by simp

lemma failed_iterator_link: "m_linkReference failed_iterator = 0"
  by (simp add: failed_iterator_def failing_iterator_def)

lemma failed_iterator_thrown: "m_thrown failed_iterator = Some (range_error ''out of range'')"
  by (simp add: failed_iterator_def)

lemma failed_iterator_cursor: "m_itCur failed_iterator = m_itCur failing_iterator"
  by (simp add: failed_iterator_def)

lemma live_store_live: "TypeIsLive (live_store r)"
  by (simp add: live_store_def new_DataModelReferenceInfo_def)

lemma dead_store_dead: "\<not> TypeIsLive (dead_store r)"
  by (simp add: dead_store_def)

lemma GetNext_stored:
  assumes "m_thrown x = Some e"
      and "\<not> TypeIsLive (h (m_linkReference x)) \<longrightarrow>
             e = object_detached ''Attempt to access a detached object''"
  shows "GetNext h d x = (Returned (converted e, None, replicate d None), x)"
proof (cases "TypeIsLive (h (m_linkReference x))")
  case True
  with assms(1) show ?thesis by (simp add: GetNext_rethrow)
next
  case False
  with assms have e: "e = object_detached ''Attempt to access a detached object''" by simp
  have "x\<lparr>m_thrown := Some e\<rparr> = x" using assms(1) by simp
  with False e show ?thesis by (simp add: GetNext_detached converted_detached)
qed

lemma calls_stored:
  assumes "m_thrown x = Some e"
      and "\<not> live \<longrightarrow> e = object_detached ''Attempt to access a detached object''"
      and "flag_is live (m_linkReference x) cs"
  shows "fst (calls cs x) = repeated (converted e) cs \<and>
         m_thrown (snd (calls cs x)) = Some e \<and>
         (\<not> has_Reset cs \<longrightarrow> snd (calls cs x) = x) \<and>
         (m_itCur (snd (calls cs x)) = m_itCur x \<or> m_itCur (snd (calls cs x)) = m_itBegin x)"
  using assms
proof (induction cs arbitrary: x)
  case Nil
  then show ?case by simp
next
  case (Cons c cs)
  show ?case
  proof (cases c)
    case (Do_GetNext h d)
    from Cons.prems Do_GetNext
    have flag: "TypeIsLive (h (m_linkReference x)) = live" "flag_is live (m_linkReference x) cs"
      by simp_all
    have step: "GetNext h d x = (Returned (converted e, None, replicate d None), x)"
      using Cons.prems(1,2) flag(1) by (intro GetNext_stored) simp_all
    from Cons.IH [OF Cons.prems(1,2) flag(2)] step Do_GetNext show ?thesis
      by (cases "calls cs x") simp
  next
    case Do_Reset
    let ?x = "x\<lparr>m_itCur := m_itBegin x\<rparr>"
    have "m_thrown ?x = Some e" using Cons.prems(1) by simp
    moreover have "flag_is live (m_linkReference ?x) cs" using Cons.prems(3) Do_Reset by simp
    ultimately have
      "fst (calls cs ?x) = repeated (converted e) cs \<and>
       m_thrown (snd (calls cs ?x)) = Some e \<and>
       (\<not> has_Reset cs \<longrightarrow> snd (calls cs ?x) = ?x) \<and>
       (m_itCur (snd (calls cs ?x)) = m_itCur ?x \<or> m_itCur (snd (calls cs ?x)) = m_itBegin ?x)"
      using Cons.prems(2) by (intro Cons.IH)
    with Do_Reset show ?thesis by (simp add: Reset_def)
  qed
qed

lemma calls_finished:
  assumes "m_thrown x = None" and "m_itCur x = m_itEnd x"
      and "flag_is True (m_linkReference x) cs" and "\<not> has_Reset cs"
  shows "calls cs x = (repeated E_BOUNDS cs, x)"
  using assms(3,4)
proof (induction cs)
  case Nil
  then show ?case by simp
next
  case (Cons c cs)
  show ?case
  proof (cases c)
    case (Do_GetNext h d)
    with Cons.prems have "TypeIsLive (h (m_linkReference x))" "flag_is True (m_linkReference x) cs"
      "\<not> has_Reset cs" by simp_all
    with Cons.IH assms(1,2) Do_GetNext show ?thesis
      by (simp add: GetNext_end)
  next
    case Do_Reset
    with Cons.prems show ?thesis by simp
  qed
qed

text \<open>
  C4, as the code has it. A step that produces no object (it raised a failure, or the
  cursor was at the end) is repeated by every later step on that iterator, with the same
  status and no object, as long as the lifetime flag of the binding is what it was at that
  step: by the next step, which leaves the iterator as it is, and by every step of any
  sequence of calls of \<open>GetNext\<close> and \<open>Reset\<close> when the step had stored a failure, of
  \<open>GetNext\<close> only when the iterator had stopped at its end with no failure. No such step
  advances the cursor: it stays where the failed step found it, or at the start after a
  \<open>Reset\<close>. Once the flag is cleared a later step raises detached-object instead, whatever
  failure the iterator had stored.
\<close>

theorem failed_or_finished_iterator_is_sticky:
  assumes "GetNext h d it = (Returned (hr, None, idxs), it')"
  shows "(TypeIsLive (h' (m_linkReference it)) = TypeIsLive (h (m_linkReference it)) \<longrightarrow>
            GetNext h' d' it' = (Returned (hr, None, replicate d' None), it') \<and>
            m_itCur it' = m_itCur it) \<and>
         (flag_is (TypeIsLive (h (m_linkReference it))) (m_linkReference it) cs \<and>
          (m_thrown it' = None \<longrightarrow> \<not> has_Reset cs) \<longrightarrow>
            fst (calls cs it') = repeated hr cs \<and>
            m_thrown (snd (calls cs it')) = m_thrown it' \<and>
            (\<not> has_Reset cs \<longrightarrow> snd (calls cs it') = it') \<and>
            (m_itCur (snd (calls cs it')) = m_itCur it \<or>
             m_itCur (snd (calls cs it')) = m_itBegin it)) \<and>
         (\<not> TypeIsLive (h' (m_linkReference it)) \<longrightarrow>
            GetNext h' d' it' =
              (Returned (E_FAIL, None, replicate d' None),
               it'\<lparr>m_thrown := Some (object_detached ''Attempt to access a detached object'')\<rparr>))"
proof -
  have link: "m_linkReference it' = m_linkReference it"
    using GetNext_link [of h d it] assms by simp
  have one: "(TypeIsLive (h' (m_linkReference it)) = TypeIsLive (h (m_linkReference it)) \<longrightarrow>
            GetNext h' d' it' = (Returned (hr, None, replicate d' None), it') \<and>
            m_itCur it' = m_itCur it) \<and>
         (\<not> TypeIsLive (h' (m_linkReference it)) \<longrightarrow>
            GetNext h' d' it' =
              (Returned (E_FAIL, None, replicate d' None),
               it'\<lparr>m_thrown := Some (object_detached ''Attempt to access a detached object'')\<rparr>))"
    using GetNext_no_object [OF assms] link
    by (auto simp: GetNext_detached GetNext_rethrow GetNext_end)
  have many: "fst (calls cs it') = repeated hr cs \<and>
            m_thrown (snd (calls cs it')) = m_thrown it' \<and>
            (\<not> has_Reset cs \<longrightarrow> snd (calls cs it') = it') \<and>
            (m_itCur (snd (calls cs it')) = m_itCur it \<or>
             m_itCur (snd (calls cs it')) = m_itBegin it)"
    if flag: "flag_is (TypeIsLive (h (m_linkReference it))) (m_linkReference it) cs"
      and reset: "m_thrown it' = None \<longrightarrow> \<not> has_Reset cs"
  proof -
    from GetNext_no_object [OF assms] consider
        (detached) "\<not> TypeIsLive (h (m_linkReference it))" "hr = E_FAIL"
          "it' = it\<lparr>m_thrown := Some (object_detached ''Attempt to access a detached object'')\<rparr>"
      | (failed) e where "TypeIsLive (h (m_linkReference it))" "hr = converted e"
          "it' = it\<lparr>m_thrown := Some e\<rparr>"
      | (finished) "TypeIsLive (h (m_linkReference it))" "m_thrown it = None"
          "m_itCur it = m_itEnd it" "hr = E_BOUNDS" "it' = it"
      by (elim disjE conjE exE)
    then show ?thesis
    proof cases
      case detached
      let ?e = "object_detached ''Attempt to access a detached object''"
      have "m_thrown it' = Some ?e" using detached(3) by simp
      moreover have "flag_is False (m_linkReference it') cs" using flag detached(1) link by simp
      ultimately have
        "fst (calls cs it') = repeated (converted ?e) cs \<and>
         m_thrown (snd (calls cs it')) = Some ?e \<and>
         (\<not> has_Reset cs \<longrightarrow> snd (calls cs it') = it') \<and>
         (m_itCur (snd (calls cs it')) = m_itCur it' \<or>
          m_itCur (snd (calls cs it')) = m_itBegin it')"
        by (intro calls_stored [where live = False]) simp_all
      with detached show ?thesis by (simp add: converted_detached)
    next
      case failed
      have "m_thrown it' = Some e" using failed(3) by simp
      moreover have "flag_is True (m_linkReference it') cs" using flag failed(1) link by simp
      ultimately have
        "fst (calls cs it') = repeated (converted e) cs \<and>
         m_thrown (snd (calls cs it')) = Some e \<and>
         (\<not> has_Reset cs \<longrightarrow> snd (calls cs it') = it') \<and>
         (m_itCur (snd (calls cs it')) = m_itCur it' \<or>
          m_itCur (snd (calls cs it')) = m_itBegin it')"
        by (intro calls_stored [where live = True]) simp_all
      with failed show ?thesis by simp
    next
      case finished
      from reset finished have "\<not> has_Reset cs" by simp
      moreover have "flag_is True (m_linkReference it) cs" using flag finished(1) by simp
      ultimately have "calls cs it = (repeated E_BOUNDS cs, it)"
        using finished(2,3) by (intro calls_finished)
      with finished show ?thesis by simp
    qed
  qed
  show ?thesis
    apply (intro conjI)
      apply (simp add: one)
     apply (intro impI, elim conjE, rule many, assumption+)
    apply (simp add: one)
    done
qed

lemma finished_iterator_step:
  "GetNext live_store 1 finished_iterator =
     (Returned (E_BOUNDS, None, [None]), finished_iterator)"
  by (simp add: GetNext_def finished_iterator_def live_store_def
        new_DataModelReferenceInfo_def ThrowIfDetached_def)

lemma failing_iterator_link: "m_linkReference failing_iterator = 0"
  by (simp add: failing_iterator_def)

lemma finished_iterator_link: "m_linkReference finished_iterator = 0"
  by (simp add: finished_iterator_def)

theorem failed_or_finished_iterator_is_sticky_witness:
  "GetNext live_store 1 failing_iterator = (Returned (E_BOUNDS, None, [None]), failed_iterator) \<and>
   GetNext live_store 1 failed_iterator = (Returned (E_BOUNDS, None, [None]), failed_iterator) \<and>
   m_itCur failed_iterator = m_itCur failing_iterator \<and>
   flag_is (TypeIsLive (live_store (m_linkReference failing_iterator)))
     (m_linkReference failing_iterator)
     [Do_GetNext live_store 1, Do_Reset, Do_GetNext live_store 2] \<and>
   m_thrown failed_iterator \<noteq> None \<and>
   fst (calls [Do_GetNext live_store 1, Do_Reset, Do_GetNext live_store 2] failed_iterator) =
     [Returned (E_BOUNDS, None, [None]), Returned (E_BOUNDS, None, [None, None])] \<and>
   GetNext live_store 1 finished_iterator =
     (Returned (E_BOUNDS, None, [None]), finished_iterator) \<and>
   m_thrown finished_iterator = None \<and>
   \<not> has_Reset [Do_GetNext live_store 1, Do_GetNext live_store 0] \<and>
   calls [Do_GetNext live_store 1, Do_GetNext live_store 0] finished_iterator =
     ([Returned (E_BOUNDS, None, [None]), Returned (E_BOUNDS, None, [])], finished_iterator)"
proof -
  note failed = failed_or_finished_iterator_is_sticky
    [OF failing_iterator_step,
     of live_store 1 "[Do_GetNext live_store 1, Do_Reset, Do_GetNext live_store 2]"]
  note finished = failed_or_finished_iterator_is_sticky
    [OF finished_iterator_step,
     of live_store 1 "[Do_GetNext live_store 1, Do_GetNext live_store 0]"]
  have 1: "GetNext live_store 1 failed_iterator =
             (Returned (E_BOUNDS, None, [None]), failed_iterator)"
          "m_itCur failed_iterator = m_itCur failing_iterator"
          "fst (calls [Do_GetNext live_store 1, Do_Reset, Do_GetNext live_store 2] failed_iterator) =
             [Returned (E_BOUNDS, None, [None]), Returned (E_BOUNDS, None, [None, None])]"
    using failed
    by (simp_all del: One_nat_def calls.simps
          add: replicate_one live_store_live failed_iterator_thrown failing_iterator_link
               numeral_2_eq_2)
  have "fst (calls [Do_GetNext live_store 1, Do_GetNext live_store 0] finished_iterator) =
          [Returned (E_BOUNDS, None, [None]), Returned (E_BOUNDS, None, [])] \<and>
        snd (calls [Do_GetNext live_store 1, Do_GetNext live_store 0] finished_iterator) =
          finished_iterator"
    using finished
    by (simp del: One_nat_def calls.simps
          add: replicate_one live_store_live finished_iterator_link)
  then have 2: "calls [Do_GetNext live_store 1, Do_GetNext live_store 0] finished_iterator =
     ([Returned (E_BOUNDS, None, [None]), Returned (E_BOUNDS, None, [])], finished_iterator)"
    by (simp add: prod_eq_iff)
  show ?thesis
    using 1 2 failing_iterator_step finished_iterator_step
    by (simp del: One_nat_def calls.simps
          add: live_store_live failed_iterator_thrown finished_iterator_def)
qed

text \<open>
  The claim as stated fails: the iterator has stored a range failure (status \<open>E_BOUNDS\<close>);
  after the binding is torn down its next step reports \<open>E_FAIL\<close> and replaces the stored
  failure by detached-object.
\<close>

theorem sticky_failure_counterexample:
  "GetNext live_store 1 failing_iterator = (Returned (E_BOUNDS, None, [None]), failed_iterator) \<and>
   m_thrown failed_iterator = Some (range_error ''out of range'') \<and>
   GetNext dead_store 1 failed_iterator =
     (Returned (E_FAIL, None, [None]),
      failed_iterator\<lparr>m_thrown := Some (object_detached ''Attempt to access a detached object'')\<rparr>) \<and>
   E_FAIL \<noteq> E_BOUNDS"
  by (simp del: One_nat_def add: replicate_one failing_iterator_step GetNext_detached dead_store_dead
        failed_iterator_thrown E_FAIL_neq_E_BOUNDS)

text \<open>
  Why an iterator that stopped at its end stays there only until it is reset: the drained
  iterator over \<open>[10, 20, 30]\<close> reports the end, is reset, and then produces the first
  element again. An iterator that stored a failure reports it after a \<open>Reset\<close> too.
\<close>

lemma finished_iterator_is_rewound_by_Reset:
  "calls [Do_GetNext live_store 1, Do_Reset, Do_GetNext live_store 1] finished_iterator =
     ([Returned (E_BOUNDS, None, [None]),
       Returned (S_OK, Some (boxed_int 10), [Some (boxed_index 0)])],
      finished_iterator\<lparr>m_itCur := 1\<rparr>)"
  by (simp del: One_nat_def
        add: replicate_one finished_iterator_step Reset_def GetNext_def ThrowIfDetached_def
          finished_iterator_def live_store_def new_DataModelReferenceInfo_def
          CreateIndexers_def FillIndexers_def BoxObjectIntrinsic_Box_def CheckHr_def
          CreateIntrinsicObject_def boxed_int_def boxed_index_def Let_def)

text \<open>
  C10, as the code has it. \<open>Reset\<close> always returns \<open>S_OK\<close> and only moves the cursor to
  the start: it reads no lifetime flag and leaves the stored failure in place. After it,
  an iterator that had failed raises its stored failure again on the next step if the
  flag is live, and detached-object if the flag is cleared.
\<close>

theorem Reset_rewinds_and_keeps_the_failure:
  "Reset it = (Returned S_OK, it\<lparr>m_itCur := m_itBegin it\<rparr>) \<and>
   m_thrown (snd (Reset it)) = m_thrown it \<and>
   (TypeIsLive (h (m_linkReference it)) \<longrightarrow> m_thrown it = Some e \<longrightarrow>
      GetNext h d (snd (Reset it)) = (Returned (converted e, None, replicate d None), snd (Reset it))) \<and>
   (\<not> TypeIsLive (h (m_linkReference it)) \<longrightarrow>
      GetNext h d (snd (Reset it)) =
        (Returned (E_FAIL, None, replicate d None),
         (snd (Reset it))\<lparr>m_thrown := Some (object_detached ''Attempt to access a detached object'')\<rparr>))"
  by (simp add: Reset_def GetNext_rethrow GetNext_detached)

theorem Reset_rewinds_and_keeps_the_failure_witness:
  "TypeIsLive (live_store (m_linkReference failed_iterator)) \<and>
   m_thrown failed_iterator = Some (range_error ''out of range'') \<and>
   fst (Reset failed_iterator) = Returned S_OK \<and>
   GetNext live_store 1 (snd (Reset failed_iterator)) =
     (Returned (E_BOUNDS, None, [None]), snd (Reset failed_iterator)) \<and>
   \<not> TypeIsLive (dead_store (m_linkReference failed_iterator)) \<and>
   fst (GetNext dead_store 1 (snd (Reset failed_iterator))) = Returned (E_FAIL, None, [None])"
  using Reset_rewinds_and_keeps_the_failure
          [of failed_iterator live_store "range_error ''out of range''" 1]
        Reset_rewinds_and_keeps_the_failure
          [of failed_iterator dead_store "range_error ''out of range''" 1]
  by (simp del: One_nat_def add: replicate_one live_store_live dead_store_dead failed_iterator_thrown
        converted_range_error Reset_def)

text \<open>
  The claim as stated fails: a failed iterator whose binding is torn down is reset with
  success and then does not raise its stored range failure (\<open>E_BOUNDS\<close>) but
  detached-object (\<open>E_FAIL\<close>).
\<close>

theorem Reset_counterexample:
  "m_thrown failed_iterator = Some (range_error ''out of range'') \<and>
   converted (range_error ''out of range'') = E_BOUNDS \<and>
   fst (Reset failed_iterator) = Returned S_OK \<and>
   fst (GetNext dead_store 1 (snd (Reset failed_iterator))) = Returned (E_FAIL, None, [None]) \<and>
   m_thrown (snd (GetNext dead_store 1 (snd (Reset failed_iterator)))) =
     Some (object_detached ''Attempt to access a detached object'') \<and>
   E_FAIL \<noteq> E_BOUNDS"
  by (simp del: One_nat_def add: replicate_one converted_range_error Reset_def GetNext_detached
        dead_store_dead failed_iterator_thrown E_FAIL_neq_E_BOUNDS)


section \<open>Exceptions at the entry points\<close>

lemma ReturnResult_spec: "ReturnResult e place = Inr (status_code e, error_object place e)"
  by (cases e) (simp_all add: ReturnResult_table error_object_def)

lemma converted_status_code: "converted e = status_code e"
  by (simp add: converted_def ReturnResult_spec)

lemma GetAt_catch_spec: "GetAt_catch e = Returned (status_code e, error_object True e)"
  by (simp add: GetAt_catch_def ReturnResult_spec)

lemma SetAt_catch_spec: "SetAt_catch e = Returned (status_code e)"
  by (simp add: SetAt_catch_def ReturnResult_spec)

lemma error_object_detached:
  "error_object True (object_detached ''Attempt to access a detached object'') =
     Some (ErrorObject E_FAIL ''Attempt to access a detached object'')"
  by (simp add: error_object_def)

lemma GetNext_converts:
  "\<not> TypeIsLive (h (m_linkReference it)) \<Longrightarrow>
   GetNext h d it =
     (Returned (E_FAIL, None, replicate d None),
      it\<lparr>m_thrown := Some (object_detached ''Attempt to access a detached object'')\<rparr>)"
  "TypeIsLive (h (m_linkReference it)) \<Longrightarrow> m_thrown it = Some e \<Longrightarrow>
   GetNext h d it = (Returned (status_code e, None, replicate d None), it)"
  "TypeIsLive (h (m_linkReference it)) \<Longrightarrow> m_thrown it = None \<Longrightarrow>
   m_itCur it \<noteq> m_itEnd it \<Longrightarrow> m_itCur it < length (m_generator it) \<Longrightarrow>
   m_projector it (m_generator it ! m_itCur it) = Inl e \<Longrightarrow>
   GetNext h d it = (Returned (status_code e, None, replicate d None), it\<lparr>m_thrown := Some e\<rparr>)"
  by (simp_all add: GetNext_def ThrowIfDetached_def GetNext_catch_eq converted_status_code)

lemma GetIterator_converts:
  "\<not> TypeIsLive (h (m_linkReference this)) \<Longrightarrow> GetIterator h this obj = Returned (E_FAIL, None)"
  "TypeIsLive (h (m_linkReference this)) \<Longrightarrow> m_genProjector this obj = Inl e \<Longrightarrow>
   GetIterator h this obj = Returned (status_code e, None)"
  by (simp_all add: GetIterator_def ThrowIfDetached_def ReturnResult_spec)

lemma GetAt_converts:
  "\<not> TypeIsLive (h (m_linkReference this)) \<Longrightarrow>
   GetAt conv h this obj idxs =
     Returned (E_FAIL, Some (ErrorObject E_FAIL ''Attempt to access a detached object''))"
  "TypeIsLive (h (m_linkReference this)) \<Longrightarrow> length idxs = 1 \<Longrightarrow>
   m_genProjector this obj = Inl e \<Longrightarrow>
   GetAt conv h this obj idxs = Returned (status_code e, error_object True e)"
  "TypeIsLive (h (m_linkReference this)) \<Longrightarrow> length idxs = 1 \<Longrightarrow>
   m_genProjector this obj = Inr xs \<Longrightarrow>
   CheckHr (GetIntrinsicValueAs conv VT_UI8 (idxs ! 0)) = Inl e \<Longrightarrow>
   GetAt conv h this obj idxs = Returned (status_code e, error_object True e)"
  "TypeIsLive (h (m_linkReference this)) \<Longrightarrow> length idxs = 1 \<Longrightarrow>
   m_genProjector this obj = Inr xs \<Longrightarrow>
   CheckHr (GetIntrinsicValueAs conv VT_UI8 (idxs ! 0)) = Inr vtIdx \<Longrightarrow>
   unat (payload vtIdx) < length xs \<Longrightarrow>
   m_itemProjector this (xs ! unat (payload vtIdx)) = Inl e \<Longrightarrow>
   GetAt conv h this obj idxs = Returned (status_code e, error_object True e)"
  by (simp_all add: GetAt_def ThrowIfDetached_def GetAt_catch_spec error_object_detached Let_def)

lemma WithIndexable_GetAt_converts:
  "\<not> TypeIsLive (h (m_linkReference indexed)) \<Longrightarrow>
   WithIndexable_GetAt h indexed obj idxs =
     Returned (E_FAIL, Some (ErrorObject E_FAIL ''Attempt to access a detached object''))"
  "TypeIsLive (h (m_linkReference indexed)) \<Longrightarrow> length idxs = Dimensionality indexed \<Longrightarrow>
   m_getAtFunction indexed obj (length idxs) idxs = Inl e \<Longrightarrow>
   WithIndexable_GetAt h indexed obj idxs = Returned (status_code e, error_object True e)"
  by (simp_all add: WithIndexable_GetAt_def ThrowIfDetached_def GetAt_catch_spec
        error_object_detached Let_def)

lemma WithIndexable_SetAt_converts:
  "\<not> TypeIsLive (h (m_linkReference indexed)) \<Longrightarrow>
   WithIndexable_SetAt h indexed obj idxs v = Returned E_FAIL"
  "TypeIsLive (h (m_linkReference indexed)) \<Longrightarrow> length idxs = Dimensionality indexed \<Longrightarrow>
   unboxValue indexed v = Inl e \<Longrightarrow>
   WithIndexable_SetAt h indexed obj idxs v = Returned (status_code e)"
  "TypeIsLive (h (m_linkReference indexed)) \<Longrightarrow> length idxs = Dimensionality indexed \<Longrightarrow>
   unboxValue indexed v = Inr val \<Longrightarrow>
   m_setAtFunction indexed obj (length idxs) idxs val = Inl e \<Longrightarrow>
   WithIndexable_SetAt h indexed obj idxs v = Returned (status_code e)"
  by (simp_all add: WithIndexable_SetAt_def ThrowIfDetached_def SetAt_catch_spec Let_def)

lemma Call_converts:
  "invoke obj (length args) args = Inl e \<Longrightarrow>
   Call invoke obj args = Returned (status_code e, error_object True e)"
  "invoke obj (length args) args = Inr result \<Longrightarrow>
   Call invoke obj args = Returned (S_OK, Some result)"
  by (simp_all add: Call_def GetAt_catch_spec Let_def)

text \<open>
  C8. An exception raised inside an entry point of an adapter (\<open>GetNext\<close>, \<open>GetIterator\<close>,
  both \<open>GetAt\<close>, \<open>SetAt\<close>, \<open>Call\<close>) does not leave it: the entry point returns the status
  code that \<open>ReturnResult\<close> gives for the exception and, where the entry point has a place
  for it (\<open>GetAt\<close>, \<open>Call\<close>), the error object. This holds wherever the exception is raised:
  by the lifetime guard, by the generator projection, by the item projector, by the
  conversion of an indexer or of the value, by the bound functions, and by the iterator
  that rethrows its stored failure. \<open>ReturnResult\<close> gives the status code and the error
  object of the spec: it maps \<open>invalid_argument\<close> to \<open>E_INVALIDARG\<close>, \<open>bad_alloc\<close> to
  \<open>E_OUTOFMEMORY\<close>, \<open>range_error\<close> to \<open>E_BOUNDS\<close>, \<open>not_implemented\<close> to \<open>E_NOTIMPL\<close>,
  \<open>unexpected_error\<close> to \<open>E_UNEXPECTED\<close>, \<open>illegal_operation\<close> to
  \<open>E_ILLEGAL_METHOD_CALL\<close>, \<open>not_set\<close> to \<open>E_NOT_SET\<close>, \<open>hr_exception\<close> to the status it
  carries and every other exception to \<open>E_FAIL\<close>, and attaches an error object with the
  message when the caller gave a place for it and the message is not empty. A bound
  method that returns normally gives \<open>S_OK\<close> and its result.
\<close>

theorem exceptions_are_converted_at_the_boundary:
  "ReturnResult e place = Inr (status_code e, error_object place e) \<and>
   ReturnResult (invalid_argument m) pp =
     Inr (E_INVALIDARG, if pp \<and> m \<noteq> [] then Some (ErrorObject E_INVALIDARG m) else None) \<and>
   ReturnResult bad_alloc pp = Inr (E_OUTOFMEMORY, None) \<and>
   ReturnResult (range_error m) pp =
     Inr (E_BOUNDS, if pp \<and> m \<noteq> [] then Some (ErrorObject E_BOUNDS m) else None) \<and>
   ReturnResult (not_implemented m) pp =
     Inr (E_NOTIMPL, if pp \<and> m \<noteq> [] then Some (ErrorObject E_NOTIMPL m) else None) \<and>
   ReturnResult (unexpected_error m) pp =
     Inr (E_UNEXPECTED, if pp \<and> m \<noteq> [] then Some (ErrorObject E_UNEXPECTED m) else None) \<and>
   ReturnResult (illegal_operation m) pp =
     Inr (E_ILLEGAL_METHOD_CALL,
          if pp \<and> m \<noteq> [] then Some (ErrorObject E_ILLEGAL_METHOD_CALL m) else None) \<and>
   ReturnResult (not_set m) pp =
     Inr (E_NOT_SET, if pp \<and> m \<noteq> [] then Some (ErrorObject E_NOT_SET m) else None) \<and>
   ReturnResult (hr_exception hr m) pp =
     Inr (hr, if pp \<and> m \<noteq> [] then Some (ErrorObject hr m) else None) \<and>
   ReturnResult (object_detached m) pp =
     Inr (E_FAIL, if pp \<and> m \<noteq> [] then Some (ErrorObject E_FAIL m) else None) \<and>
   ReturnResult (other_std_exception m) pp =
     Inr (E_FAIL, if pp \<and> m \<noteq> [] then Some (ErrorObject E_FAIL m) else None) \<and>
   ReturnResult foreign_exception pp = Inr (E_FAIL, None) \<and>
   (\<not> TypeIsLive (h (m_linkReference it)) \<longrightarrow>
      GetNext h d it =
        (Returned (E_FAIL, None, replicate d None),
         it\<lparr>m_thrown := Some (object_detached ''Attempt to access a detached object'')\<rparr>)) \<and>
   (TypeIsLive (h (m_linkReference it)) \<and> m_thrown it = Some e \<longrightarrow>
      GetNext h d it = (Returned (status_code e, None, replicate d None), it)) \<and>
   (TypeIsLive (h (m_linkReference it)) \<and> m_thrown it = None \<and> m_itCur it \<noteq> m_itEnd it \<and>
    m_itCur it < length (m_generator it) \<and>
    m_projector it (m_generator it ! m_itCur it) = Inl e \<longrightarrow>
      GetNext h d it =
        (Returned (status_code e, None, replicate d None), it\<lparr>m_thrown := Some e\<rparr>)) \<and>
   (\<not> TypeIsLive (h (m_linkReference this)) \<longrightarrow>
      GetIterator h this obj = Returned (E_FAIL, None)) \<and>
   (TypeIsLive (h (m_linkReference this)) \<and> m_genProjector this obj = Inl e \<longrightarrow>
      GetIterator h this obj = Returned (status_code e, None)) \<and>
   (\<not> TypeIsLive (h (m_linkReference this)) \<longrightarrow>
      GetAt conv h this obj idxs =
        Returned (E_FAIL, Some (ErrorObject E_FAIL ''Attempt to access a detached object''))) \<and>
   (TypeIsLive (h (m_linkReference this)) \<and> length idxs = 1 \<and>
    m_genProjector this obj = Inl e \<longrightarrow>
      GetAt conv h this obj idxs = Returned (status_code e, error_object True e)) \<and>
   (TypeIsLive (h (m_linkReference this)) \<and> length idxs = 1 \<and>
    m_genProjector this obj = Inr xs \<and>
    CheckHr (GetIntrinsicValueAs conv VT_UI8 (idxs ! 0)) = Inl e \<longrightarrow>
      GetAt conv h this obj idxs = Returned (status_code e, error_object True e)) \<and>
   (TypeIsLive (h (m_linkReference this)) \<and> length idxs = 1 \<and>
    m_genProjector this obj = Inr xs \<and>
    CheckHr (GetIntrinsicValueAs conv VT_UI8 (idxs ! 0)) = Inr vtIdx \<and>
    unat (payload vtIdx) < length xs \<and>
    m_itemProjector this (xs ! unat (payload vtIdx)) = Inl e \<longrightarrow>
      GetAt conv h this obj idxs = Returned (status_code e, error_object True e)) \<and>
   (\<not> TypeIsLive (h (m_linkReference indexed)) \<longrightarrow>
      WithIndexable_GetAt h indexed obj idxs =
        Returned (E_FAIL, Some (ErrorObject E_FAIL ''Attempt to access a detached object''))) \<and>
   (TypeIsLive (h (m_linkReference indexed)) \<and> length idxs = Dimensionality indexed \<and>
    m_getAtFunction indexed obj (length idxs) idxs = Inl e \<longrightarrow>
      WithIndexable_GetAt h indexed obj idxs = Returned (status_code e, error_object True e)) \<and>
   (\<not> TypeIsLive (h (m_linkReference indexed)) \<longrightarrow>
      WithIndexable_SetAt h indexed obj idxs v = Returned E_FAIL) \<and>
   (TypeIsLive (h (m_linkReference indexed)) \<and> length idxs = Dimensionality indexed \<and>
    unboxValue indexed v = Inl e \<longrightarrow>
      WithIndexable_SetAt h indexed obj idxs v = Returned (status_code e)) \<and>
   (TypeIsLive (h (m_linkReference indexed)) \<and> length idxs = Dimensionality indexed \<and>
    unboxValue indexed v = Inr val \<and>
    m_setAtFunction indexed obj (length idxs) idxs val = Inl e \<longrightarrow>
      WithIndexable_SetAt h indexed obj idxs v = Returned (status_code e)) \<and>
   (invoke obj (length args) args = Inl e \<longrightarrow>
      Call invoke obj args = Returned (status_code e, error_object True e)) \<and>
   (invoke obj (length args) args = Inr result \<longrightarrow>
      Call invoke obj args = Returned (S_OK, Some result)) \<and>
   fst (GetNext h d it) \<noteq> Thrown e \<and>
   GetIterator h this obj \<noteq> Thrown e \<and>
   GetAt conv h this obj idxs \<noteq> Thrown e \<and>
   WithIndexable_GetAt h indexed obj idxs \<noteq> Thrown e \<and>
   WithIndexable_SetAt h indexed obj idxs v \<noteq> Thrown e \<and>
   Call invoke obj args \<noteq> Thrown e"
  apply (intro conjI impI)
  apply (simp_all only: ReturnResult_table GetNext_not_Thrown GetIterator_not_Thrown
           GetAt_not_Thrown WithIndexable_GetAt_not_Thrown WithIndexable_SetAt_not_Thrown
           Call_not_Thrown not_False_eq_True)
  apply (simp_all add: ReturnResult_spec GetNext_converts GetIterator_converts
           GetAt_converts WithIndexable_GetAt_converts WithIndexable_SetAt_converts Call_converts)
   apply (elim conjE, erule (2) WithIndexable_GetAt_converts(2))
  apply (elim conjE, erule (3) WithIndexable_SetAt_converts(3))
  done

lemma failing_iterator_facts:
  "TypeIsLive (live_store (m_linkReference failing_iterator))"
  "m_thrown failing_iterator = None"
  "m_itCur failing_iterator \<noteq> m_itEnd failing_iterator"
  "m_itCur failing_iterator < length (m_generator failing_iterator)"
  "m_projector failing_iterator (m_generator failing_iterator ! m_itCur failing_iterator) =
     Inl (range_error ''out of range'')"
  by (simp_all add: failing_iterator_def live_store_live)

theorem exceptions_are_converted_at_the_boundary_witness:
  "TypeIsLive (live_store (m_linkReference failing_iterator)) \<and>
   m_thrown failing_iterator = None \<and>
   m_itCur failing_iterator \<noteq> m_itEnd failing_iterator \<and>
   m_itCur failing_iterator < length (m_generator failing_iterator) \<and>
   m_projector failing_iterator (m_generator failing_iterator ! m_itCur failing_iterator) =
     Inl (range_error ''out of range'') \<and>
   GetNext live_store 1 failing_iterator = (Returned (E_BOUNDS, None, [None]), failed_iterator) \<and>
   TypeIsLive (live_store (m_linkReference failed_iterator)) \<and>
   m_thrown failed_iterator = Some (range_error ''out of range'') \<and>
   GetNext live_store 1 failed_iterator = (Returned (E_BOUNDS, None, [None]), failed_iterator) \<and>
   rejecting_method (SyntheticObject 0) (length []) [] =
     Inl (invalid_argument ''Illegal number of arguments to method call'') \<and>
   Call rejecting_method (SyntheticObject 0) [] =
     Returned (E_INVALIDARG,
               Some (ErrorObject E_INVALIDARG ''Illegal number of arguments to method call'')) \<and>
   \<not> TypeIsLive (dead_store (m_linkReference collection)) \<and>
   GetAt no_conv dead_store collection (SyntheticObject 0) [boxed_index 0] =
     Returned (E_FAIL, Some (ErrorObject E_FAIL ''Attempt to access a detached object'')) \<and>
   GetIterator dead_store collection (SyntheticObject 0) = Returned (E_FAIL, None)"
proof -
  note step = exceptions_are_converted_at_the_boundary
    [where h = live_store and d = 1 and it = failing_iterator
       and e = "range_error ''out of range''" and invoke = rejecting_method
       and place = True and m = "[]" and pp = True and hr = E_FAIL
       and conv = no_conv and obj = "SyntheticObject 0" and idxs = "[boxed_index 0]"
       and xs = "[10, 20, 30]" and vtIdx = "\<lparr>vt = VT_UI8, payload = 0\<rparr>"
       and indexed = indexed_collection and v = NoValueObject and val = "S_Object None"
       and args = "[]" and result = NoValueObject and this = collection]
  note again = exceptions_are_converted_at_the_boundary
    [where h = live_store and d = 1 and it = failed_iterator
       and e = "range_error ''out of range''" and invoke = rejecting_method
       and place = True and m = "[]" and pp = True and hr = E_FAIL
       and conv = no_conv and obj = "SyntheticObject 0" and idxs = "[boxed_index 0]"
       and xs = "[10, 20, 30]" and vtIdx = "\<lparr>vt = VT_UI8, payload = 0\<rparr>"
       and indexed = indexed_collection and v = NoValueObject and val = "S_Object None"
       and args = "[]" and result = NoValueObject and this = collection]
  note invoked = exceptions_are_converted_at_the_boundary
    [where h = live_store and d = 1 and it = failed_iterator
       and e = "invalid_argument ''Illegal number of arguments to method call''"
       and invoke = rejecting_method
       and place = True and m = "[]" and pp = True and hr = E_FAIL
       and conv = no_conv and obj = "SyntheticObject 0" and idxs = "[boxed_index 0]"
       and xs = "[10, 20, 30]" and vtIdx = "\<lparr>vt = VT_UI8, payload = 0\<rparr>"
       and indexed = indexed_collection and v = NoValueObject and val = "S_Object None"
       and args = "[]" and result = NoValueObject and this = collection]
  note torn = exceptions_are_converted_at_the_boundary
    [where h = dead_store and d = 1 and it = failed_iterator
       and e = "range_error ''out of range''" and invoke = rejecting_method
       and place = True and m = "[]" and pp = True and hr = E_FAIL
       and conv = no_conv and obj = "SyntheticObject 0" and idxs = "[boxed_index 0]"
       and xs = "[10, 20, 30]" and vtIdx = "\<lparr>vt = VT_UI8, payload = 0\<rparr>"
       and indexed = indexed_collection and v = NoValueObject and val = "S_Object None"
       and args = "[]" and result = NoValueObject and this = collection]
  have 1: "GetNext live_store 1 failing_iterator =
             (Returned (E_BOUNDS, None, [None]), failed_iterator)"
    using step failing_iterator_facts
    by (simp del: One_nat_def add: replicate_one failed_iterator_def)
  have 2: "GetNext live_store 1 failed_iterator =
             (Returned (E_BOUNDS, None, [None]), failed_iterator)"
    using again failed_iterator_thrown live_store_live
    by (simp del: One_nat_def add: replicate_one)
  have 3: "Call rejecting_method (SyntheticObject 0) [] =
             Returned (E_INVALIDARG,
               Some (ErrorObject E_INVALIDARG ''Illegal number of arguments to method call''))"
    using invoked by (simp add: rejecting_method_def error_object_def)
  have 4: "GetAt no_conv dead_store collection (SyntheticObject 0) [boxed_index 0] =
             Returned (E_FAIL, Some (ErrorObject E_FAIL ''Attempt to access a detached object''))"
          "GetIterator dead_store collection (SyntheticObject 0) = Returned (E_FAIL, None)"
    using torn dead_store_dead by simp_all
  show ?thesis
    using 1 2 3 4 failing_iterator_facts failed_iterator_thrown live_store_live dead_store_dead
    by (simp add: rejecting_method_def)
qed


section \<open>Properties of the linear indexer\<close>

lemma GetAt_linear:
  assumes "TypeIsLive (h (m_linkReference this))" and "m_genProjector this obj = Inr xs"
  shows "GetAt conv h this obj [boxed_index i] =
           (if unat i > length xs then Returned (E_BOUNDS, None)
            else if unat i = length xs then Undefined
            else (case m_itemProjector this (xs ! unat i) of
                    Inl e \<Rightarrow> GetAt_catch e
                  | Inr val \<Rightarrow>
                      (case BoxObject val of
                         Inl e \<Rightarrow> GetAt_catch e
                       | Inr valObject \<Rightarrow> Returned (S_OK, Some valObject))))"
  using assms
  by (simp add: GetAt_def ThrowIfDetached_def boxed_index_def CheckHr_def Let_def)

lemma collection_facts:
  "TypeIsLive (live_store (m_linkReference collection))"
  "m_genProjector collection obj = Inr [10, 20, 30]"
  "m_itemProjector collection x = Inr (N_int x)"
  "IsRandomAccessIterator collection"
  by (simp_all add: collection_def live_store_live)

lemma BoxObject_int: "BoxObjectIntrinsic_Box (N_int x) = Inr (boxed_int x)"
  by (simp add: BoxObjectIntrinsic_Box_def CheckHr_def CreateIntrinsicObject_def boxed_int_def)

text \<open>
  C1, on the code. The linear indexer compares the index with the length by \<open>>\<close>: for
  the collection \<open>[10, 20, 30]\<close> an index below 3 returns the boxed element and an index
  above 3 returns \<open>E_BOUNDS\<close>, but the index 3 passes the check and the method
  dereferences the end cursor.
\<close>

theorem GetAt_dereferences_the_end_cursor:
  "GetAt no_conv live_store collection (SyntheticObject 0) [boxed_index 0] =
     Returned (S_OK, Some (boxed_int 10)) \<and>
   GetAt no_conv live_store collection (SyntheticObject 0) [boxed_index 2] =
     Returned (S_OK, Some (boxed_int 30)) \<and>
   GetAt no_conv live_store collection (SyntheticObject 0) [boxed_index 3] = Undefined \<and>
   GetAt no_conv live_store collection (SyntheticObject 0) [boxed_index 4] =
     Returned (E_BOUNDS, None)"
  by (simp add: GetAt_linear [of live_store collection _ "[10, 20, 30]",
                              OF collection_facts(1) collection_facts(2)]
        collection_facts(3) BoxObject_int)

section \<open>Properties of traversals\<close>


















section \<open>Properties of the lifetime guard\<close>

lemma GetIterator_detached:
  "\<not> TypeIsLive (h (m_linkReference this)) \<Longrightarrow> GetIterator h this obj = Returned (E_FAIL, None)"
  by (simp add: GetIterator_def ThrowIfDetached_def ReturnResult_detached)

lemma GetAt_detached:
  "\<not> TypeIsLive (h (m_linkReference this)) \<Longrightarrow>
   GetAt conv h this obj idxs =
     Returned (E_FAIL, Some (ErrorObject E_FAIL ''Attempt to access a detached object''))"
  by (simp add: GetAt_def ThrowIfDetached_def GetAt_catch_def ReturnResult_detached)

lemma WithIndexable_GetAt_detached:
  "\<not> TypeIsLive (h (m_linkReference this)) \<Longrightarrow>
   WithIndexable_GetAt h this obj idxs =
     Returned (E_FAIL, Some (ErrorObject E_FAIL ''Attempt to access a detached object''))"
  by (simp add: WithIndexable_GetAt_def ThrowIfDetached_def GetAt_catch_def ReturnResult_detached)

lemma WithIndexable_SetAt_detached:
  "\<not> TypeIsLive (h (m_linkReference this)) \<Longrightarrow>
   WithIndexable_SetAt h this obj idxs v = Returned E_FAIL"
  by (simp add: WithIndexable_SetAt_def ThrowIfDetached_def SetAt_catch_def ReturnResult_detached)

lemma GetIterator_link:
  "GetIterator h this obj = Returned (hr, Some it) \<Longrightarrow> m_linkReference it = m_linkReference this"
  by (auto simp: GetIterator_def ReturnResult_converted split: sum.splits)

lemma teardown_clears: "\<not> TypeIsLive (BaseDataModel_dtor (Some r) h r)"
  by (simp add: BaseDataModel_dtor_def)

lemma teardown_never_revives:
  "\<not> TypeIsLive (h r) \<Longrightarrow> \<not> TypeIsLive (BaseDataModel_dtor r' h r)"
  by (simp add: BaseDataModel_dtor_def split: option.splits)

lemma step_keeps:
  assumes "step conv w ev = (r, w')"
  shows "m_dataRef w' = m_dataRef w"
    and "ev \<noteq> Ev_Teardown \<Longrightarrow> infos w' = infos w"
    and "\<not> TypeIsLive (infos w (m_dataRef w)) \<Longrightarrow> \<not> TypeIsLive (infos w' (m_dataRef w))"
    and "bound w \<Longrightarrow> bound w'"
  using assms
  by (cases ev; auto simp: BaseDataModel_dtor_def bound_def Reset_def GetNext_link GetIterator_link
        split: option.splits prod.splits com_result.splits; metis GetNext_link snd_conv)+

lemma step_detached:
  assumes "step conv w ev = (r, w')" and "bound w" and "\<not> TypeIsLive (infos w (m_dataRef w))"
  shows "iterator w' = None \<longleftrightarrow> iterator w = None"
    and "dereferences ev \<Longrightarrow>
         r = Some (Returned E_FAIL) \<or>
         (r = None \<and> iterator w = None \<and> (\<exists>d. ev = Ev_GetNext d))"
  using assms
  by (cases ev; auto simp: bound_def GetIterator_detached GetNext_detached GetAt_detached
        WithIndexable_GetAt_detached WithIndexable_SetAt_detached Reset_def
        split: option.splits)+

lemma run_detached:
  assumes "run conv w evs = (rs, w')" and "bound w" and "\<not> TypeIsLive (infos w (m_dataRef w))"
  shows "\<not> TypeIsLive (infos w' (m_dataRef w)) \<and> length rs = length evs \<and>
         (\<forall>k<length evs. dereferences (evs ! k) \<longrightarrow>
            rs ! k = Some (Returned E_FAIL) \<or>
            (rs ! k = None \<and> iterator w = None \<and> (\<exists>d. evs ! k = Ev_GetNext d)))"
  using assms
proof (induction evs arbitrary: w rs)
  case Nil
  then show ?case by simp
next
  case (Cons ev evs)
  obtain r w1 where s: "step conv w ev = (r, w1)" by (cases "step conv w ev")
  obtain rs1 where r1: "run conv w1 evs = (rs1, w')" and rs: "rs = r # rs1"
    using Cons.prems(1) s by (auto split: prod.splits)
  note k = step_keeps [OF s] and d = step_detached [OF s Cons.prems(2,3)]
  have IH: "\<not> TypeIsLive (infos w' (m_dataRef w1)) \<and> length rs1 = length evs \<and>
         (\<forall>k<length evs. dereferences (evs ! k) \<longrightarrow>
            rs1 ! k = Some (Returned E_FAIL) \<or>
            (rs1 ! k = None \<and> iterator w1 = None \<and> (\<exists>d. evs ! k = Ev_GetNext d)))"
    using Cons.IH [OF r1] k(1,3,4) Cons.prems(2,3) by simp
  show ?case
  proof (intro conjI allI impI)
    show "\<not> TypeIsLive (infos w' (m_dataRef w))" using IH k(1) by simp
    show "length rs = length (ev # evs)" using IH rs by simp
  next
    fix j assume j: "j < length (ev # evs)" and dj: "dereferences ((ev # evs) ! j)"
    show "rs ! j = Some (Returned E_FAIL) \<or>
          (rs ! j = None \<and> iterator w = None \<and> (\<exists>d. (ev # evs) ! j = Ev_GetNext d))"
    proof (cases j)
      case 0
      with dj d(2) rs show ?thesis by simp
    next
      case (Suc j')
      with j dj IH d(1) rs show ?thesis by auto
    qed
  qed
qed

text \<open>
  C2. The teardown of a binding clears the lifetime flag that its adapters share. While
  the flag is cleared, iterator acquisition, the iterator step, the indexed get of both
  indexers and the indexed set check it first and raise detached-object, which reaches
  the host as \<open>E_FAIL\<close>, without using the native sequence; the iterator keeps
  detached-object as its failure. In every sequence of events on a binding whose flag is
  cleared (calls into the adapters, further teardowns) the flag stays cleared and every
  call that would use the native instance returns \<open>E_FAIL\<close>; an event other than the
  teardown leaves the store of flags as it was.
\<close>

theorem detached_after_teardown:
  assumes "bound w"
  shows "\<not> TypeIsLive (infos (snd (step conv w Ev_Teardown)) (m_dataRef w)) \<and>
         (\<forall>ev r w'. step conv w ev = (r, w') \<longrightarrow> ev \<noteq> Ev_Teardown \<longrightarrow> infos w' = infos w) \<and>
         (\<not> TypeIsLive (infos w (m_dataRef w)) \<longrightarrow>
            ThrowIfDetached (infos w) (m_dataRef w) =
              Inl (object_detached ''Attempt to access a detached object'') \<and>
            GetIterator (infos w) (iterable w) obj = Returned (E_FAIL, None) \<and>
            GetAt conv (infos w) (iterable w) obj idxs =
              Returned (E_FAIL, Some (ErrorObject E_FAIL ''Attempt to access a detached object'')) \<and>
            WithIndexable_GetAt (infos w) (indexable w) obj idxs =
              Returned (E_FAIL, Some (ErrorObject E_FAIL ''Attempt to access a detached object'')) \<and>
            WithIndexable_SetAt (infos w) (indexable w) obj idxs v = Returned E_FAIL \<and>
            (\<forall>it. iterator w = Some it \<longrightarrow>
               GetNext (infos w) d it =
                 (Returned (E_FAIL, None, replicate d None),
                  it\<lparr>m_thrown := Some (object_detached ''Attempt to access a detached object'')\<rparr>)) \<and>
            (\<forall>evs rs w'. run conv w evs = (rs, w') \<longrightarrow>
               \<not> TypeIsLive (infos w' (m_dataRef w)) \<and>
               (\<forall>k<length evs. dereferences (evs ! k) \<longrightarrow>
                  rs ! k = Some (Returned E_FAIL) \<or>
                  (rs ! k = None \<and> iterator w = None \<and> (\<exists>d. evs ! k = Ev_GetNext d)))))"
proof (intro conjI allI impI)
  show "\<not> TypeIsLive (infos (snd (step conv w Ev_Teardown)) (m_dataRef w))"
    by (simp add: teardown_clears)
next
  fix ev r w' assume "step conv w ev = (r, w')" and "ev \<noteq> Ev_Teardown"
  then show "infos w' = infos w" by (rule step_keeps(2))
next
  assume dead: "\<not> TypeIsLive (infos w (m_dataRef w))"
  have links: "m_linkReference (iterable w) = m_dataRef w" "m_linkReference (indexable w) = m_dataRef w"
    using assms by (simp_all add: bound_def)
  show "ThrowIfDetached (infos w) (m_dataRef w) =
          Inl (object_detached ''Attempt to access a detached object'')"
    using dead by (simp add: ThrowIfDetached_def)
  show "GetIterator (infos w) (iterable w) obj = Returned (E_FAIL, None)"
    using dead links by (simp add: GetIterator_detached)
  show "GetAt conv (infos w) (iterable w) obj idxs =
          Returned (E_FAIL, Some (ErrorObject E_FAIL ''Attempt to access a detached object''))"
    using dead links by (simp add: GetAt_detached)
  show "WithIndexable_GetAt (infos w) (indexable w) obj idxs =
          Returned (E_FAIL, Some (ErrorObject E_FAIL ''Attempt to access a detached object''))"
    using dead links by (simp add: WithIndexable_GetAt_detached)
  show "WithIndexable_SetAt (infos w) (indexable w) obj idxs v = Returned E_FAIL"
    using dead links by (simp add: WithIndexable_SetAt_detached)
  {
    fix it assume "iterator w = Some it"
    then have "m_linkReference it = m_dataRef w" using assms by (simp add: bound_def)
    then show "GetNext (infos w) d it =
                 (Returned (E_FAIL, None, replicate d None),
                  it\<lparr>m_thrown := Some (object_detached ''Attempt to access a detached object'')\<rparr>)"
      using dead by (simp add: GetNext_detached)
  }
  {
    fix evs rs w' assume r: "run conv w evs = (rs, w')"
    note rd = run_detached [OF r assms dead]
    show "\<not> TypeIsLive (infos w' (m_dataRef w))" using rd by simp
    fix k assume "k < length evs" and "dereferences (evs ! k)"
    then show "rs ! k = Some (Returned E_FAIL) \<or>
               (rs ! k = None \<and> iterator w = None \<and> (\<exists>d. evs ! k = Ev_GetNext d))"
      using rd by blast
  }
qed

lemma binding_bound: "bound binding"
  by (simp add: bound_def binding_def collection_def indexed_collection_def)

theorem detached_after_teardown_witness:
  "bound binding \<and>
   TypeIsLive (infos binding (m_dataRef binding)) \<and>
   \<not> TypeIsLive (infos (snd (step no_conv binding Ev_Teardown)) (m_dataRef binding)) \<and>
   bound (snd (step no_conv binding Ev_Teardown)) \<and>
   GetIterator (infos (snd (step no_conv binding Ev_Teardown)))
     (iterable (snd (step no_conv binding Ev_Teardown))) (SyntheticObject 0) =
     Returned (E_FAIL, None) \<and>
   fst (run no_conv (snd (step no_conv binding Ev_Teardown))
          [Ev_GetAt (SyntheticObject 0) [boxed_index 0], Ev_Teardown,
           Ev_IndexedSetAt (SyntheticObject 0) [boxed_index 0] (boxed_int 5)]) =
     [Some (Returned E_FAIL), None, Some (Returned E_FAIL)]"
proof -
  let ?w = "snd (step no_conv binding Ev_Teardown)"
  have b: "bound ?w"
    using step_keeps(4) [of no_conv binding Ev_Teardown "fst (step no_conv binding Ev_Teardown)" ?w]
          binding_bound by simp
  have ref: "m_dataRef ?w = m_dataRef binding" by simp
  have dead: "\<not> TypeIsLive (infos ?w (m_dataRef ?w))" by (simp add: teardown_clears)
  note t = detached_after_teardown [OF binding_bound, of no_conv]
  note t' = detached_after_teardown [OF b, of no_conv "SyntheticObject 0",
                                    THEN conjunct2, THEN conjunct2, THEN mp, OF dead]
  have td: "\<not> TypeIsLive (infos ?w (m_dataRef binding))"
    using t [THEN conjunct1] .
  have gi: "GetIterator (infos ?w) (iterable ?w) (SyntheticObject 0) = Returned (E_FAIL, None)"
    using t' [THEN conjunct2, THEN conjunct1] .
  have live: "TypeIsLive (infos binding (m_dataRef binding))"
    by (simp add: binding_def live_store_live)
  have run: "fst (run no_conv ?w
          [Ev_GetAt (SyntheticObject 0) [boxed_index 0], Ev_Teardown,
           Ev_IndexedSetAt (SyntheticObject 0) [boxed_index 0] (boxed_int 5)]) =
     [Some (Returned E_FAIL), None, Some (Returned E_FAIL)]"
    using dead
    by (simp add: GetAt_detached WithIndexable_SetAt_detached binding_def collection_def
          indexed_collection_def BaseDataModel_dtor_def)
  show ?thesis
    by (intro conjI) (fact binding_bound live td b gi run)+
qed


section \<open>Properties of boxing and unboxing\<close>

lemma ucast_payload_8: "ucast (ucast (x :: 8 word) :: 64 word) = x"
  by (simp add: ucast_up_ucast_id is_up)

lemma ucast_payload_16: "ucast (ucast (x :: 16 word) :: 64 word) = x"
  by (simp add: ucast_up_ucast_id is_up)

lemma ucast_payload_32: "ucast (ucast (x :: 32 word) :: 64 word) = x"
  by (simp add: ucast_up_ucast_id is_up)

lemma VARIANT_BOOL_round_trip:
  "((ucast (ucast (if b then VARIANT_TRUE else VARIANT_FALSE) :: 64 word) :: 16 word) = VARIANT_TRUE) = b"
  by (simp add: ucast_payload_16 VARIANT_TRUE_def VARIANT_FALSE_def)

lemmas box_defs =
  BoxObjectIntrinsic_Box_def BoxObjectIntrinsic_Unbox_def CheckHr_def CreateIntrinsicObject_def
  CreateNoValue_def

lemma intrinsic_round_trip:
  assumes "never_boxes_to_no_value (type_of x)" and "well_typed x"
  shows "\<exists>v. BoxObject x = Inr (IntrinsicObject ObjectIntrinsic v) \<and>
             UnboxObject conv (type_of x) (IntrinsicObject ObjectIntrinsic v) = Inr x"
  using assms
proof (induction x)
  case (N_bool b)
  show ?case
    using VARIANT_BOOL_round_trip [of b] by (simp add: box_defs)
next
  case (N_enum name x)
  then show ?case by auto
qed (simp_all add: box_defs ucast_payload_8 ucast_payload_16 ucast_payload_32)

lemma integral_never_boxes_to_no_value: "is_integral T \<Longrightarrow> never_boxes_to_no_value T"
  by (cases T) simp_all

text \<open>
  C5, as the code has it. For every value \<open>x\<close> of an intrinsic scalar type, of an
  enumeration, or of an \<open>optional<T>\<close> whose element type \<open>T\<close> never boxes to the
  no-value marker (a scalar or an enumeration, not itself an optional), unboxing at the
  type of \<open>x\<close> the object that boxing \<open>x\<close> produced yields \<open>x\<close> again. A floating point
  value is compared as the bit pattern that the library copies. (In the witness the
  \<open>char\<close> \<open>255\<close> is \<open>-1\<close>.)
\<close>

theorem unbox_box_round_trip:
  assumes "well_typed x" and "optionals_hold_values x"
  shows "\<exists>obj. BoxObject x = Inr obj \<and> UnboxObject conv (type_of x) obj = Inr x"
proof (cases x)
  case (N_enum name y)
  with assms have "never_boxes_to_no_value (type_of x)"
    by (simp add: integral_never_boxes_to_no_value)
  from intrinsic_round_trip [OF this assms(1)] show ?thesis by blast
next
  case (N_optional T opt)
  show ?thesis
  proof (cases opt)
    case None
    with N_optional show ?thesis by (simp add: box_defs)
  next
    case (Some y)
    with N_optional assms have y: "never_boxes_to_no_value (type_of y)" "well_typed y" "type_of y = T"
      by simp_all
    from intrinsic_round_trip [OF y(1,2), of conv] obtain v where
      "BoxObject y = Inr (IntrinsicObject ObjectIntrinsic v)"
      "UnboxObject conv (type_of y) (IntrinsicObject ObjectIntrinsic v) = Inr y"
      by blast
    with N_optional Some y(3) show ?thesis by (simp add: CheckHr_def)
  qed
qed (use intrinsic_round_trip [of x conv] in auto)

theorem unbox_box_round_trip_witness:
  "well_typed (N_optional (T_enum ''Colour'' T_char) (Some (N_enum ''Colour'' (N_char 255)))) \<and>
   optionals_hold_values (N_optional (T_enum ''Colour'' T_char) (Some (N_enum ''Colour'' (N_char 255)))) \<and>
   BoxObject (N_optional (T_enum ''Colour'' T_char) (Some (N_enum ''Colour'' (N_char 255)))) =
     Inr (IntrinsicObject ObjectIntrinsic \<lparr>vt = VT_I1, payload = 255\<rparr>) \<and>
   UnboxObject no_conv (T_optional (T_enum ''Colour'' T_char))
     (IntrinsicObject ObjectIntrinsic \<lparr>vt = VT_I1, payload = 255\<rparr>) =
     Inr (N_optional (T_enum ''Colour'' T_char) (Some (N_enum ''Colour'' (N_char 255))))"
proof -
  let ?x = "N_optional (T_enum ''Colour'' T_char) (Some (N_enum ''Colour'' (N_char 255)))"
  have wt: "well_typed ?x" and ov: "optionals_hold_values ?x" by simp_all
  have box: "BoxObject ?x = Inr (IntrinsicObject ObjectIntrinsic \<lparr>vt = VT_I1, payload = 255\<rparr>)"
    by (simp add: box_defs)
  from unbox_box_round_trip [OF wt ov, of no_conv] box wt ov show ?thesis by simp
qed

text \<open>
  The claim as stated fails for an optional of an optional: the present value "empty inner
  optional" boxes to the no-value marker, which unboxes to the empty outer optional.
\<close>

theorem nested_optional_counterexample:
  "well_typed (N_optional (T_optional T_int) (Some (N_optional T_int None))) \<and>
   BoxObject (N_optional (T_optional T_int) (Some (N_optional T_int None))) = Inr NoValueObject \<and>
   UnboxObject no_conv (T_optional (T_optional T_int)) NoValueObject =
     Inr (N_optional (T_optional T_int) None) \<and>
   N_optional (T_optional T_int) None \<noteq> N_optional (T_optional T_int) (Some (N_optional T_int None))"
  by (simp add: box_defs)

lemma boundary_values_round_trip:
  "UnboxObject conv T_int (IntrinsicObject ObjectIntrinsic (FillVariant (N_int (- 1)))) = Inr (N_int (- 1))"
  "UnboxObject conv T_long (IntrinsicObject ObjectIntrinsic (FillVariant (N_long (- 1)))) = Inr (N_long (- 1))"
  "UnboxObject conv T_int64 (IntrinsicObject ObjectIntrinsic (FillVariant (N_int64 0x8000000000000000))) =
     Inr (N_int64 0x8000000000000000)"
  "UnboxObject conv T_ushort (IntrinsicObject ObjectIntrinsic (FillVariant (N_ushort 0xFFFF))) =
     Inr (N_ushort 0xFFFF)"
  "UnboxObject conv T_bool (IntrinsicObject ObjectIntrinsic (FillVariant (N_bool True))) = Inr (N_bool True)"
  using VARIANT_BOOL_round_trip [of True]
  by (simp_all add: box_defs ucast_payload_16 ucast_payload_32)


section \<open>Properties of the signature analysis\<close>

lemma IsNonOptionalArgument_iff: "IsNonOptionalArgument T = (\<not> IsOptionalArgument T)"
  by (induction T rule: IsOptionalArgument.induct) simp_all

lemma HasVariableArgumentHelper2_Cons:
  "ys \<noteq> [] \<Longrightarrow> HasVariableArgumentHelper2 (x # y # ys) = HasVariableArgumentHelper2 (y # ys)"
  by (cases ys) simp_all

lemma HasVariableArgumentHelper2_append:
  "HasVariableArgumentHelper2 (xs @ [a, b]) = (a = T_size_t \<and> b = A_ObjectPtr)"
proof (induction xs)
  case Nil
  show ?case by (simp add: IsVariableArgumentPosition_def)
next
  case (Cons x xs)
  then show ?case by (cases xs) (simp_all add: HasVariableArgumentHelper2_Cons)
qed

lemma HasVariableArguments_append:
  "HasVariableArguments (xs @ [a, b]) = (a = T_size_t \<and> b = A_ObjectPtr)"
  by (simp add: HasVariableArguments_def HasVariableArgumentHelper2_append)

lemma HasVariableArguments_append2:
  "HasVariableArguments (xs @ ys @ [a, b]) = (a = T_size_t \<and> b = A_ObjectPtr)"
  using HasVariableArguments_append [of "xs @ ys" a b] by simp

lemma two_last:
  assumes "2 \<le> length TArgs"
  shows "\<exists>xs a b. TArgs = xs @ [a, b]"
proof -
  from assms obtain ys b where 1: "TArgs = ys @ [b]"
    by (cases TArgs rule: rev_cases) auto
  with assms obtain xs a where "ys = xs @ [a]"
    by (cases ys rule: rev_cases) auto
  with 1 show ?thesis by simp
qed

lemma HasVariableArguments_iff:
  "HasVariableArguments TArgs = (\<exists>xs. TArgs = xs @ [T_size_t, A_ObjectPtr])"
proof
  assume h: "HasVariableArguments TArgs"
  then have "2 \<le> length TArgs"
    by (cases TArgs; cases "tl TArgs") (auto simp: HasVariableArguments_def)
  from two_last [OF this] obtain xs a b where t: "TArgs = xs @ [a, b]" by blast
  with h show "\<exists>xs. TArgs = xs @ [T_size_t, A_ObjectPtr]"
    by (auto simp: HasVariableArguments_append)
next
  assume "\<exists>xs. TArgs = xs @ [T_size_t, A_ObjectPtr]"
  then show "HasVariableArguments TArgs" by (auto simp: HasVariableArguments_append)
qed

lemma HasVariableArguments_prefix:
  "HasVariableArguments TArgs \<Longrightarrow> HasVariableArguments (pre @ TArgs)"
  by (auto simp: HasVariableArguments_iff)

lemma HasVariableArguments_length: "HasVariableArguments TArgs \<Longrightarrow> 2 \<le> length TArgs"
  by (auto simp: HasVariableArguments_iff)

lemma IsVariableArgumentPosition_last:
  assumes "i + 2 = length TT"
  shows "IsVariableArgumentPosition [TT ! i, TT ! (i + 1)] = HasVariableArguments TT"
proof -
  from assms have "2 \<le> length TT" by simp
  from two_last [OF this] obtain xs a b where t: "TT = xs @ [a, b]" by blast
  with assms have i: "i = length xs" by simp
  show ?thesis
    by (simp add: t i nth_append HasVariableArguments_append IsVariableArgumentPosition_def)
qed

lemma HasNonOptionalArguments_False:
  "\<not> HasNonOptionalArguments ys \<Longrightarrow>
   ys \<noteq> [] \<and> ((\<forall>y\<in>set ys. IsOptionalArgument y) \<or>
              (\<exists>os. ys = os @ [T_size_t, A_ObjectPtr] \<and> (\<forall>y\<in>set os. IsOptionalArgument y)))"
proof (induction ys rule: HasNonOptionalArguments.induct)
  case 1
  then show ?case by simp
next
  case (2 T)
  then show ?case by (simp add: IsNonOptionalArgument_iff)
next
  case (3 T v va)
  show ?case
  proof (cases "IsVariableArgumentPosition (T # v # va)")
    case True
    show ?thesis
    proof (intro conjI disjI2 exI [of _ "[]"])
      show "T # v # va \<noteq> []" by simp
      show "T # v # va = [] @ [T_size_t, A_ObjectPtr]"
        using True by (simp add: IsVariableArgumentPosition_def)
      show "\<forall>y\<in>set []. IsOptionalArgument y" by simp
    qed
  next
    case False
    have eq: "HasNonOptionalArguments (T # v # va) =
                (if IsNonOptionalArgument T then True else HasNonOptionalArguments (v # va))"
      using False by simp
    from "3.prems" have opt: "IsOptionalArgument T" and rest: "\<not> HasNonOptionalArguments (v # va)"
      unfolding eq by (simp_all add: IsNonOptionalArgument_iff split: if_splits)
    from opt have "\<not> IsNonOptionalArgument T" by (simp add: IsNonOptionalArgument_iff)
    note ih = "3.IH" [OF False this rest, THEN conjunct2]
    from ih show ?thesis
    proof (elim disjE exE conjE)
      assume "\<forall>y\<in>set (v # va). IsOptionalArgument y"
      with opt show ?thesis by simp
    next
      fix os assume a: "v # va = os @ [T_size_t, A_ObjectPtr]"
        and b: "\<forall>y\<in>set os. IsOptionalArgument y"
      show ?thesis
      proof (intro conjI disjI2 exI [of _ "T # os"])
        show "T # v # va \<noteq> []" by simp
        show "T # v # va = (T # os) @ [T_size_t, A_ObjectPtr]" using a by simp
        show "\<forall>y\<in>set (T # os). IsOptionalArgument y" using opt b by simp
      qed
    qed
  qed
qed

lemma HasOptionalArguments_message:
  "HasOptionalArguments TArgs = Inl err \<Longrightarrow>
   err = static_assert_failed
           ''Any std::optional<T> must come before any non optional (or non varArgs) argument''"
  by (induction TArgs arbitrary: err rule: HasOptionalArguments.induct)
     (auto simp: Let_def split: sum.splits if_splits)

lemma HasOptionalArguments_accepts:
  "HasOptionalArguments TArgs = Inr b \<Longrightarrow> i + 1 < length TArgs \<Longrightarrow>
   IsOptionalArgument (TArgs ! i) \<Longrightarrow> \<not> HasNonOptionalArguments (drop (i + 1) TArgs)"
proof (induction TArgs arbitrary: b i rule: HasOptionalArguments.induct)
  case 1
  then show ?case by simp
next
  case (2 T)
  then show ?case by simp
next
  case (3 T v va)
  from "3.prems"(1) obtain b' where
    next_ok: "HasOptionalArguments (v # va) = Inr b'" and
    here: "IsOptionalArgument T \<longrightarrow> \<not> HasNonOptionalArguments (v # va)"
    by (auto simp: Let_def split: sum.splits if_splits)
  show ?case
  proof (cases i)
    case 0
    with "3.prems"(3) here show ?thesis by simp
  next
    case (Suc i')
    with "3.prems" have "i' + 1 < length (v # va)" "IsOptionalArgument ((v # va) ! i')"
      by simp_all
    from "3.IH" [OF refl next_ok this] Suc show ?thesis by simp
  qed
qed

lemma ordering_rule_is_enforced:
  assumes "required_after_optional TArgs"
  shows "HasOptionalArguments TArgs =
           Inl (static_assert_failed
                  ''Any std::optional<T> must come before any non optional (or non varArgs) argument'')"
proof (cases "HasOptionalArguments TArgs")
  case (Inl err)
  with HasOptionalArguments_message [OF Inl] show ?thesis by simp
next
  case (Inr b)
  from assms obtain i j where ij: "i < j" "j < length TArgs"
    and opt: "IsOptionalArgument (TArgs ! i)" and req: "\<not> IsOptionalArgument (TArgs ! j)"
    and out: "\<not> in_variadic_pair TArgs j"
    by (auto simp: required_after_optional_def IsNonOptionalArgument_iff)
  let ?ys = "drop (i + 1) TArgs"
  have "\<not> HasNonOptionalArguments ?ys"
    using HasOptionalArguments_accepts [OF Inr _ opt] ij by simp
  note cases = HasNonOptionalArguments_False [OF this, THEN conjunct2]
  have jy: "TArgs ! j = ?ys ! (j - (i + 1))" and jl: "j - (i + 1) < length ?ys"
    using ij by simp_all
  from cases have False
  proof (elim disjE exE conjE)
    assume "\<forall>y\<in>set ?ys. IsOptionalArgument y"
    with jy req nth_mem [OF jl] show False by simp
  next
    fix os assume ys: "?ys = os @ [T_size_t, A_ObjectPtr]"
      and os: "\<forall>y\<in>set os. IsOptionalArgument y"
    have "take (i + 1) TArgs @ ?ys = TArgs" by (rule append_take_drop_id)
    then have "TArgs = (take (i + 1) TArgs @ os) @ [T_size_t, A_ObjectPtr]"
      by (simp only: ys append_assoc)
    then have var: "HasVariableArguments TArgs"
      unfolding HasVariableArguments_iff by (rule exI)
    have len: "length ?ys = length os + 2" by (subst ys) simp
    have "\<not> j - (i + 1) < length os"
    proof
      assume l: "j - (i + 1) < length os"
      then have "?ys ! (j - (i + 1)) = os ! (j - (i + 1))" by (subst ys) (simp add: nth_append)
      with os jy req nth_mem [OF l] show False by simp
    qed
    then have "length TArgs - 2 \<le> j" using len ij by simp
    with var out show False by (simp add: in_variadic_pair_def)
  qed
  then show ?thesis ..
qed

lemma PackMatchingSize_WithIgnore_Helper_drop:
  "i \<le> n \<Longrightarrow> n - i \<le> length TArgs \<Longrightarrow>
   PackMatchingSize_WithIgnore_Helper i n TArgs = PackMatchingSize (drop (n - i) TArgs)"
proof (induction TArgs arbitrary: i)
  case Nil
  then show ?case by simp
next
  case (Cons T TArgs)
  show ?case
  proof (cases "i = n")
    case True
    then show ?thesis by simp
  next
    case False
    with Cons.prems have "i + 1 \<le> n" "n - (i + 1) \<le> length TArgs" by simp_all
    from Cons.IH [OF this] False Cons.prems show ?thesis
      by (simp add: Suc_diff_Suc drop_Cons')
  qed
qed

lemma PackMatchingSize_WithIgnore_drop:
  "n \<le> length TArgs \<Longrightarrow> PackMatchingSize_WithIgnore n TArgs = PackMatchingSize (drop n TArgs)"
  using PackMatchingSize_WithIgnore_Helper_drop [of 0 n TArgs]
  by (simp add: PackMatchingSize_WithIgnore_def)

text \<open>
  C9. A signature whose dynamic part (the parameters after the receiver and the extra
  values) has a required parameter after an optional one, other than in the trailing
  variadic pair, fails the \<open>static_assert\<close> when \<open>InvokeFunctionFromPack\<close> is
  instantiated for it: for every argument count and every argument array the result is the
  compile-time error, so no call of such a binding exists.
\<close>

theorem misordered_signature_is_rejected_at_declaration:
  assumes "length extraValues + 1 \<le> length TArgs"
      and "required_after_optional (drop (length extraValues + 1) TArgs)"
  shows "InvokeFunctionFromPack unbox func TArgs contextObj packSize ppArgumentPack extraValues =
           Inl (static_assert_failed
                  ''Any std::optional<T> must come before any non optional (or non varArgs) argument'')"
  using ordering_rule_is_enforced [OF assms(2)] PackMatchingSize_WithIgnore_drop [OF assms(1)]
  by (simp add: InvokeFunctionFromPack_def PackMatchingSize_def Let_def)

lemma misordered_signature_facts:
  "length ([] :: slot list) + 1 \<le> length misordered_signature"
  "required_after_optional (drop (length ([] :: slot list) + 1) misordered_signature)"
proof -
  show "length ([] :: slot list) + 1 \<le> length misordered_signature"
    by (simp add: misordered_signature_def)
  have "required_after_optional [A_value (T_optional T_int), A_value T_int]"
    unfolding required_after_optional_def
    apply (rule exI [of _ 0])
    apply simp
    apply (rule exI [of _ 1])
    apply (simp add: in_variadic_pair_def HasVariableArguments_def IsVariableArgumentPosition_def)
    done
  then show "required_after_optional (drop (length ([] :: slot list) + 1) misordered_signature)"
    by (simp add: misordered_signature_def)
qed

theorem misordered_signature_is_rejected_at_declaration_witness:
  "length ([] :: slot list) + 1 \<le> length misordered_signature \<and>
   required_after_optional (drop (length ([] :: slot list) + 1) misordered_signature) \<and>
   InvokeFunctionFromPack (UnboxArgument no_conv) variadic_function misordered_signature
     (SyntheticObject 0) 2 [boxed_int 1, boxed_int 2] [] =
     Inl (static_assert_failed
            ''Any std::optional<T> must come before any non optional (or non varArgs) argument'')"
  using misordered_signature_is_rejected_at_declaration
          [OF misordered_signature_facts, of "UnboxArgument no_conv" variadic_function
              "SyntheticObject 0" 2 "[boxed_int 1, boxed_int 2]"]
        misordered_signature_facts
  by simp


section \<open>Properties of the unpacker\<close>

lemma regular_slots_le: "regular_slots TT \<le> length TT"
  by (simp add: regular_slots_def)

lemma variadic_pair_position:
  assumes "HasVariableArguments TT"
  shows "TT ! regular_slots TT = T_size_t \<and> TT ! (regular_slots TT + 1) = A_ObjectPtr \<and>
         regular_slots TT + 1 < length TT"
proof -
  from assms obtain xs where x: "TT = xs @ [T_size_t, A_ObjectPtr]"
    unfolding HasVariableArguments_iff by (elim exE)
  show ?thesis
    unfolding x by (simp add: regular_slots_def HasVariableArguments_append nth_append)
qed

lemma Unpacker_regular_step:
  assumes "i + Suc r = length TT" and "HasVariableArguments TT \<longrightarrow> 2 \<le> Suc r"
      and "\<not> (Suc r = 2 \<and> IsVariableArgumentPosition [TT ! i, TT ! (i + 1)])"
  shows "i < regular_slots TT" and "HasVariableArguments TT \<longrightarrow> 2 \<le> r"
proof -
  have "HasVariableArguments TT \<longrightarrow> Suc r \<noteq> 2"
    using assms(1,3) IsVariableArgumentPosition_last [of i TT] by auto
  with assms(2) show "HasVariableArguments TT \<longrightarrow> 2 \<le> r" by auto
  with assms(1) show "i < regular_slots TT" by (auto simp: regular_slots_def)
qed

lemma Unpacker_variadic_step:
  assumes "i + Suc r = length TT"
      and "Suc r = 2 \<and> IsVariableArgumentPosition [TT ! i, TT ! (i + 1)]"
  shows "HasVariableArguments TT" and "regular_slots TT = i"
proof -
  from assms have "i + 2 = length TT" by simp
  with assms(2) show "HasVariableArguments TT"
    using IsVariableArgumentPosition_last [of i TT] by simp
  with \<open>i + 2 = length TT\<close> show "regular_slots TT = i" by (auto simp: regular_slots_def)
qed

lemma Unpacker_result:
  assumes "Unpacker unbox TT i r ps pack tuple = Inr t"
      and "i + r = length TT" and "length tuple = length TT"
      and "HasVariableArguments TT \<longrightarrow> 2 \<le> r"
  shows "length t = length TT \<and>
         (\<forall>k<i. t ! k = tuple ! k) \<and>
         (\<forall>k. i \<le> k \<and> k < regular_slots TT \<longrightarrow>
              (k < ps \<longrightarrow> unbox (TT ! k) (pack ! k) = Inr (t ! k)) \<and>
              (ps \<le> k \<longrightarrow> t ! k = tuple ! k)) \<and>
         (HasVariableArguments TT \<longrightarrow>
            (regular_slots TT < ps \<longrightarrow>
               t ! regular_slots TT = S_value (N_uint64 (of_nat (ps - regular_slots TT))) \<and>
               t ! (regular_slots TT + 1) = S_ObjectPtr (Some (regular_slots TT))) \<and>
            (ps \<le> regular_slots TT \<longrightarrow>
               t ! regular_slots TT = tuple ! regular_slots TT \<and>
               t ! (regular_slots TT + 1) = tuple ! (regular_slots TT + 1)))"
  using assms
proof (induction r arbitrary: i tuple)
  case 0
  then have "\<not> HasVariableArguments TT" and "t = tuple" and "i = length TT" by simp_all
  then show ?case using regular_slots_le [of TT] "0.prems"(3) by auto
next
  case (Suc r)
  show ?case
  proof (cases "Suc r = 2 \<and> IsVariableArgumentPosition [TT ! i, TT ! (i + 1)]")
    case True
    note v = Unpacker_variadic_step [OF Suc.prems(2) True]
    from True Suc.prems(1) have t: "t = VariableUnpacker_UnpackInto i ps tuple" by simp
    from True Suc.prems(2,3) have len: "i < length tuple" "i + 1 < length tuple" by simp_all
    show ?thesis
      using v len Suc.prems(3) by (auto simp: t VariableUnpacker_UnpackInto_def Let_def)
  next
    case False
    note s = Unpacker_regular_step [OF Suc.prems(2) Suc.prems(4) False]
    from Suc.prems(2,3) have il: "i < length tuple" by simp
    show ?thesis
    proof (cases "i < ps")
      case True
      with False Suc.prems(1) obtain v where
        u: "unbox (TT ! i) (pack ! i) = Inr v" and
        rec: "Unpacker unbox TT (i + 1) r ps pack (tuple[i := v]) = Inr t"
        by (auto split: sum.splits if_splits)
      have "i + 1 + r = length TT" "length (tuple[i := v]) = length TT"
        using Suc.prems(2,3) by simp_all
      note IH = Suc.IH [OF rec this s(2)]
      have a: "\<forall>k<i. t ! k = tuple ! k" using IH by auto
      have b: "t ! i = v" using IH il by auto
      have c: "\<forall>k. i < k \<and> k < length tuple \<longrightarrow> (tuple[i := v]) ! k = tuple ! k" by simp
      have n: "regular_slots TT + 1 \<le> length tuple \<or> \<not> HasVariableArguments TT"
        using Suc.prems(3) HasVariableArguments_length [of TT] by (auto simp: regular_slots_def)
      show ?thesis
      proof (intro conjI allI impI)
        show "length t = length TT" using IH by simp
      next
        fix k assume "k < i" then show "t ! k = tuple ! k" using a by simp
      next
        fix k assume k: "i \<le> k \<and> k < regular_slots TT" and "k < ps"
        then show "unbox (TT ! k) (pack ! k) = Inr (t ! k)"
          using IH u b by (cases "k = i") auto
      next
        fix k assume k: "i \<le> k \<and> k < regular_slots TT" and "ps \<le> k"
        with True have "i + 1 \<le> k" by simp
        with k \<open>ps \<le> k\<close> IH have "t ! k = (tuple[i := v]) ! k" by blast
        with \<open>i + 1 \<le> k\<close> show "t ! k = tuple ! k" by simp
      next
        assume "HasVariableArguments TT" and "regular_slots TT < ps"
        with IH show "t ! regular_slots TT = S_value (N_uint64 (of_nat (ps - regular_slots TT)))"
          by blast
      next
        assume "HasVariableArguments TT" and "regular_slots TT < ps"
        with IH show "t ! (regular_slots TT + 1) = S_ObjectPtr (Some (regular_slots TT))"
          by blast
      next
        assume h: "HasVariableArguments TT" and p: "ps \<le> regular_slots TT"
        with IH have "t ! regular_slots TT = (tuple[i := v]) ! regular_slots TT" by blast
        with s(1) show "t ! regular_slots TT = tuple ! regular_slots TT" by simp
      next
        assume h: "HasVariableArguments TT" and p: "ps \<le> regular_slots TT"
        with IH have "t ! (regular_slots TT + 1) = (tuple[i := v]) ! (regular_slots TT + 1)" by blast
        with s(1) show "t ! (regular_slots TT + 1) = tuple ! (regular_slots TT + 1)" by simp
      qed
    next
      case nolt: False
      with False Suc.prems(1) have
        rec: "Unpacker unbox TT (i + 1) r ps pack tuple = Inr t"
        by (auto split: if_splits)
      have "i + 1 + r = length TT" using Suc.prems(2) by simp
      note IH = Suc.IH [OF rec this Suc.prems(3) s(2)]
      show ?thesis
      proof (intro conjI allI impI)
        show "length t = length TT" using IH by simp
      next
        fix k assume "k < i" then show "t ! k = tuple ! k" using IH by auto
      next
        fix k assume k: "i \<le> k \<and> k < regular_slots TT" and "k < ps"
        with nolt have "i + 1 \<le> k" by simp
        with k \<open>k < ps\<close> IH show "unbox (TT ! k) (pack ! k) = Inr (t ! k)" by blast
      next
        fix k assume k: "i \<le> k \<and> k < regular_slots TT" and "ps \<le> k"
        show "t ! k = tuple ! k"
        proof (cases "k = i")
          case True
          then show ?thesis using IH by auto
        next
          case False
          with k have "i + 1 \<le> k" by simp
          with k \<open>ps \<le> k\<close> IH show ?thesis by blast
        qed
      next
        assume "HasVariableArguments TT" and "regular_slots TT < ps"
        with IH show "t ! regular_slots TT = S_value (N_uint64 (of_nat (ps - regular_slots TT)))"
          by blast
      next
        assume "HasVariableArguments TT" and "regular_slots TT < ps"
        with IH show "t ! (regular_slots TT + 1) = S_ObjectPtr (Some (regular_slots TT))"
          by blast
      next
        assume "HasVariableArguments TT" and "ps \<le> regular_slots TT"
        with IH show "t ! regular_slots TT = tuple ! regular_slots TT" by blast
      next
        assume "HasVariableArguments TT" and "ps \<le> regular_slots TT"
        with IH show "t ! (regular_slots TT + 1) = tuple ! (regular_slots TT + 1)" by blast
      qed
    qed
  qed
qed

lemma Unpacker_succeeds:
  assumes "i + r = length TT" and "HasVariableArguments TT \<longrightarrow> 2 \<le> r"
      and "\<forall>k. i \<le> k \<and> k < regular_slots TT \<and> k < ps \<longrightarrow> (\<exists>v. unbox (TT ! k) (pack ! k) = Inr v)"
  shows "\<exists>t. Unpacker unbox TT i r ps pack tuple = Inr t"
  using assms
proof (induction r arbitrary: i tuple)
  case 0
  show ?case by simp
next
  case (Suc r)
  show ?case
  proof (cases "Suc r = 2 \<and> IsVariableArgumentPosition [TT ! i, TT ! (i + 1)]")
    case True
    then show ?thesis by simp
  next
    case False
    note s = Unpacker_regular_step [OF Suc.prems(1) Suc.prems(2) False]
    have nxt: "i + 1 + r = length TT" using Suc.prems(1) by simp
    have rest: "\<forall>k. i + 1 \<le> k \<and> k < regular_slots TT \<and> k < ps \<longrightarrow>
                  (\<exists>v. unbox (TT ! k) (pack ! k) = Inr v)"
      using Suc.prems(3) by auto
    show ?thesis
    proof (cases "i < ps")
      case True
      with s(1) Suc.prems(3) obtain v where u: "unbox (TT ! i) (pack ! i) = Inr v" by auto
      from Suc.IH [OF nxt s(2) rest, of "tuple[i := v]"] False True u show ?thesis by auto
    next
      case nolt: False
      from Suc.IH [OF nxt s(2) rest, of tuple] False nolt show ?thesis by auto
    qed
  qed
qed

lemma UnpackValues_eq:
  "cnt \<le> length TArgs \<Longrightarrow>
   UnpackValues unbox cnt TArgs ps pack =
     Unpacker unbox (drop cnt TArgs) 0 (length (drop cnt TArgs)) ps pack
       (map default_slot (drop cnt TArgs))"
  by (simp add: UnpackValues_def TupleTypeExtractor_def Let_def)

lemma UnpackValues_slots:
  assumes "tupleExtractionCount \<le> length TArgs"
  shows "let TT = TupleTypeExtractor tupleExtractionCount TArgs; n = regular_slots TT in
         ((\<forall>k. k < n \<and> k < packSize \<longrightarrow> (\<exists>v. unbox (TT ! k) (ppArgumentPack ! k) = Inr v)) \<longrightarrow>
          (\<exists>t. UnpackValues unbox tupleExtractionCount TArgs packSize ppArgumentPack = Inr t)) \<and>
         (\<forall>t. UnpackValues unbox tupleExtractionCount TArgs packSize ppArgumentPack = Inr t \<longrightarrow>
            length t = length TT \<and>
            (\<forall>k<n. (k < packSize \<longrightarrow> unbox (TT ! k) (ppArgumentPack ! k) = Inr (t ! k)) \<and>
                   (packSize \<le> k \<longrightarrow> t ! k = default_slot (TT ! k)) \<and>
                   (packSize \<le> k \<longrightarrow>
                      (\<forall>T. TT ! k = A_value (T_optional T) \<longrightarrow> t ! k = S_value (N_optional T None)))) \<and>
            (HasVariableArguments TT \<longrightarrow>
               (n < packSize \<longrightarrow>
                  t ! n = S_value (N_uint64 (of_nat (packSize - n))) \<and>
                  t ! (n + 1) = S_ObjectPtr (Some n)) \<and>
               (packSize \<le> n \<longrightarrow>
                  t ! n = S_value (N_uint64 0) \<and> t ! (n + 1) = S_ObjectPtr None)))"
proof -
  let ?TT = "drop tupleExtractionCount TArgs"
  let ?n = "regular_slots ?TT"
  let ?U = "UnpackValues unbox tupleExtractionCount TArgs packSize ppArgumentPack"
  note eq = UnpackValues_eq [OF assms, of unbox packSize ppArgumentPack]
  have var2: "HasVariableArguments ?TT \<longrightarrow> 2 \<le> length ?TT"
    using HasVariableArguments_length by blast
  have succ: "(\<forall>k. k < ?n \<and> k < packSize \<longrightarrow> (\<exists>v. unbox (?TT ! k) (ppArgumentPack ! k) = Inr v)) \<longrightarrow>
              (\<exists>t. ?U = Inr t)"
  proof
    assume "\<forall>k. k < ?n \<and> k < packSize \<longrightarrow> (\<exists>v. unbox (?TT ! k) (ppArgumentPack ! k) = Inr v)"
    then have "\<forall>k. 0 \<le> k \<and> k < ?n \<and> k < packSize \<longrightarrow>
                 (\<exists>v. unbox (?TT ! k) (ppArgumentPack ! k) = Inr v)" by simp
    from Unpacker_succeeds [OF _ var2 this, of "map default_slot ?TT"] show "\<exists>t. ?U = Inr t"
      by (simp add: eq)
  qed
  have res: "\<forall>t. ?U = Inr t \<longrightarrow>
            length t = length ?TT \<and>
            (\<forall>k<?n. (k < packSize \<longrightarrow> unbox (?TT ! k) (ppArgumentPack ! k) = Inr (t ! k)) \<and>
                   (packSize \<le> k \<longrightarrow> t ! k = default_slot (?TT ! k)) \<and>
                   (packSize \<le> k \<longrightarrow>
                      (\<forall>T. ?TT ! k = A_value (T_optional T) \<longrightarrow> t ! k = S_value (N_optional T None)))) \<and>
            (HasVariableArguments ?TT \<longrightarrow>
               (?n < packSize \<longrightarrow>
                  t ! ?n = S_value (N_uint64 (of_nat (packSize - ?n))) \<and>
                  t ! (?n + 1) = S_ObjectPtr (Some ?n)) \<and>
               (packSize \<le> ?n \<longrightarrow>
                  t ! ?n = S_value (N_uint64 0) \<and> t ! (?n + 1) = S_ObjectPtr None))"
  proof (intro allI impI)
    fix t assume "?U = Inr t"
    then have u: "Unpacker unbox ?TT 0 (length ?TT) packSize ppArgumentPack (map default_slot ?TT) = Inr t"
      by (simp add: eq)
    have p1: "0 + length ?TT = length ?TT" and p2: "length (map default_slot ?TT) = length ?TT"
      by simp_all
    note r = Unpacker_result [OF u p1 p2 var2]
    note r1 = r [THEN conjunct1]
    have r2: "(k < packSize \<longrightarrow> unbox (?TT ! k) (ppArgumentPack ! k) = Inr (t ! k)) \<and>
              (packSize \<le> k \<longrightarrow> t ! k = map default_slot ?TT ! k)" if "k < ?n" for k
      using r [THEN conjunct2, THEN conjunct2, THEN conjunct1, rule_format, of k] that by simp
    note r3 = r [THEN conjunct2, THEN conjunct2, THEN conjunct2, rule_format]
    have nl: "?n \<le> length ?TT" by (rule regular_slots_le)
    have dflt: "\<And>k. k < length ?TT \<Longrightarrow> map default_slot ?TT ! k = default_slot (?TT ! k)"
      by simp
    note pair = variadic_pair_position [of ?TT]
    show "length t = length ?TT \<and>
            (\<forall>k<?n. (k < packSize \<longrightarrow> unbox (?TT ! k) (ppArgumentPack ! k) = Inr (t ! k)) \<and>
                   (packSize \<le> k \<longrightarrow> t ! k = default_slot (?TT ! k)) \<and>
                   (packSize \<le> k \<longrightarrow>
                      (\<forall>T. ?TT ! k = A_value (T_optional T) \<longrightarrow> t ! k = S_value (N_optional T None)))) \<and>
            (HasVariableArguments ?TT \<longrightarrow>
               (?n < packSize \<longrightarrow>
                  t ! ?n = S_value (N_uint64 (of_nat (packSize - ?n))) \<and>
                  t ! (?n + 1) = S_ObjectPtr (Some ?n)) \<and>
               (packSize \<le> ?n \<longrightarrow>
                  t ! ?n = S_value (N_uint64 0) \<and> t ! (?n + 1) = S_ObjectPtr None))"
    proof (intro conjI allI impI)
      show "length t = length ?TT" by (rule r1)
    next
      fix k assume "k < ?n" and "k < packSize"
      with r2 [of k] show "unbox (?TT ! k) (ppArgumentPack ! k) = Inr (t ! k)" by simp
    next
      fix k assume k: "k < ?n" and p: "packSize \<le> k"
      with r2 [of k] have "t ! k = map default_slot ?TT ! k" by simp
      also have "\<dots> = default_slot (?TT ! k)" using k nl by (intro dflt) simp
      finally show "t ! k = default_slot (?TT ! k)" .
    next
      fix k T assume k: "k < ?n" and p: "packSize \<le> k" and T: "?TT ! k = A_value (T_optional T)"
      with r2 [of k] have "t ! k = map default_slot ?TT ! k" by simp
      also have "\<dots> = default_slot (?TT ! k)" using k nl by (intro dflt) simp
      finally show "t ! k = S_value (N_optional T None)" by (simp only: T default_slot.simps default_value.simps)
    next
      assume h: "HasVariableArguments ?TT" and l: "?n < packSize"
      from r3 [OF h, THEN conjunct1, THEN mp, OF l]
      show "t ! ?n = S_value (N_uint64 (of_nat (packSize - ?n)))" by (rule conjunct1)
    next
      assume h: "HasVariableArguments ?TT" and l: "?n < packSize"
      from r3 [OF h, THEN conjunct1, THEN mp, OF l]
      show "t ! (?n + 1) = S_ObjectPtr (Some ?n)" by (rule conjunct2)
    next
      assume h: "HasVariableArguments ?TT" and l: "packSize \<le> ?n"
      from r3 [OF h, THEN conjunct2, THEN mp, OF l]
      have "t ! ?n = map default_slot ?TT ! ?n" by (rule conjunct1)
      also have "\<dots> = default_slot (?TT ! ?n)" using pair [OF h] by (intro dflt) simp
      finally show "t ! ?n = S_value (N_uint64 0)"
        using pair [OF h] by simp
    next
      assume h: "HasVariableArguments ?TT" and l: "packSize \<le> ?n"
      from r3 [OF h, THEN conjunct2, THEN mp, OF l]
      have "t ! (?n + 1) = map default_slot ?TT ! (?n + 1)" by (rule conjunct2)
      also have "\<dots> = default_slot (?TT ! (?n + 1))" using pair [OF h] by (intro dflt) simp
      finally show "t ! (?n + 1) = S_ObjectPtr None"
        using pair [OF h] by simp
    qed
  qed
  from succ res show ?thesis
    by (simp only: Let_def TupleTypeExtractor_def)
qed


text \<open>
  C7, as the code has it. Unpacking succeeds when every supplied argument of a regular
  slot unboxes; an absent argument never causes an error. In the tuple, a regular slot
  \<open>k\<close> below the argument count holds the unboxed \<open>k\<close>-th argument, and a regular slot
  with no argument keeps its default value, which for an optional slot is \<open>std::nullopt\<close>.
  A trailing variadic pair at position \<open>n\<close> receives the remaining count
  \<open>packSize - n\<close> and the pointer \<open>ppArgumentPack + n\<close> when more than \<open>n\<close> arguments
  were supplied; otherwise the pair is left as it was initialised, the count \<open>0\<close> and
  the null pointer.
\<close>

theorem arguments_are_unpacked_into_their_slots:
  assumes "tupleExtractionCount \<le> length TArgs" and "packSize = length ppArgumentPack"
  shows "let TT = TupleTypeExtractor tupleExtractionCount TArgs; n = regular_slots TT in
         ((\<forall>k. k < n \<and> k < packSize \<longrightarrow> (\<exists>v. unbox (TT ! k) (ppArgumentPack ! k) = Inr v)) \<longrightarrow>
          (\<exists>t. UnpackValues unbox tupleExtractionCount TArgs packSize ppArgumentPack = Inr t)) \<and>
         (\<forall>t. UnpackValues unbox tupleExtractionCount TArgs packSize ppArgumentPack = Inr t \<longrightarrow>
            length t = length TT \<and>
            (\<forall>k<n. (k < packSize \<longrightarrow> unbox (TT ! k) (ppArgumentPack ! k) = Inr (t ! k)) \<and>
                   (packSize \<le> k \<longrightarrow> t ! k = default_slot (TT ! k)) \<and>
                   (packSize \<le> k \<longrightarrow>
                      (\<forall>T. TT ! k = A_value (T_optional T) \<longrightarrow> t ! k = S_value (N_optional T None)))) \<and>
            (HasVariableArguments TT \<longrightarrow>
               (n < packSize \<longrightarrow>
                  t ! n = S_value (N_uint64 (of_nat (packSize - n))) \<and>
                  t ! (n + 1) = S_ObjectPtr (Some n)) \<and>
               (packSize \<le> n \<longrightarrow>
                  t ! n = S_value (N_uint64 0) \<and> t ! (n + 1) = S_ObjectPtr None)))"
  using UnpackValues_slots [OF assms(1)] .

lemma variadic_signature_facts:
  "1 \<le> length variadic_signature"
  "TupleTypeExtractor 1 variadic_signature =
     [A_value T_int, A_value (T_optional T_int), T_size_t, A_ObjectPtr]"
  by (simp_all add: variadic_signature_def TupleTypeExtractor_def)

lemma unpack_variadic_signature:
  "UnpackValues unbox (Suc 0) variadic_signature ps pack =
     Unpacker unbox [A_value T_int, A_value (T_optional T_int), T_size_t, A_ObjectPtr] 0
       (Suc (Suc (Suc (Suc 0)))) ps pack
       [S_value (N_int 0), S_value (N_optional T_int None), S_value (N_uint64 0), S_ObjectPtr None]"
  unfolding UnpackValues_def TupleTypeExtractor_def variadic_signature_def Let_def
  by (simp del: Unpacker.simps)

lemma unpack_four:
  "UnpackValues (UnboxArgument no_conv) 1 variadic_signature 4
     [boxed_int 7, boxed_int 8, boxed_int 9, boxed_int 10] =
     Inr [S_value (N_int 7), S_value (N_optional T_int (Some (N_int 8))),
          S_value (N_uint64 2), S_ObjectPtr (Some 2)]"
  by (simp add: unpack_variadic_signature IsVariableArgumentPosition_def
        VariableUnpacker_UnpackInto_def boxed_int_def box_defs ucast_payload_32)

lemma unpack_one:
  "UnpackValues (UnboxArgument no_conv) 1 variadic_signature 1 [boxed_int 7] =
     Inr [S_value (N_int 7), S_value (N_optional T_int None), S_value (N_uint64 0), S_ObjectPtr None]"
  by (simp add: unpack_variadic_signature IsVariableArgumentPosition_def
        VariableUnpacker_UnpackInto_def boxed_int_def box_defs ucast_payload_32)

theorem arguments_are_unpacked_into_their_slots_witness:
  "1 \<le> length variadic_signature \<and>
   (4 :: nat) = length [boxed_int 7, boxed_int 8, boxed_int 9, boxed_int 10] \<and>
   regular_slots (TupleTypeExtractor 1 variadic_signature) = 2 \<and>
   HasVariableArguments (TupleTypeExtractor 1 variadic_signature) \<and>
   UnpackValues (UnboxArgument no_conv) 1 variadic_signature 4
     [boxed_int 7, boxed_int 8, boxed_int 9, boxed_int 10] =
     Inr [S_value (N_int 7), S_value (N_optional T_int (Some (N_int 8))),
          S_value (N_uint64 2), S_ObjectPtr (Some 2)]"
proof -
  have len: "(4 :: nat) = length [boxed_int 7, boxed_int 8, boxed_int 9, boxed_int 10]" by simp
  have var: "HasVariableArguments (TupleTypeExtractor 1 variadic_signature)"
    unfolding variadic_signature_facts(2)
    using HasVariableArguments_append [of "[A_value T_int, A_value (T_optional T_int)]" T_size_t A_ObjectPtr]
    by simp
  then have n: "regular_slots (TupleTypeExtractor 1 variadic_signature) = 2"
    unfolding regular_slots_def variadic_signature_facts(2) by simp
  note t = arguments_are_unpacked_into_their_slots
             [OF variadic_signature_facts(1) len, of "UnboxArgument no_conv"]
  from t variadic_signature_facts(1) len n var unpack_four show ?thesis
    by (intro conjI)
qed

text \<open>
  The claim as stated fails when no argument is left for the variadic pair: for the
  signature \<open>(size_t, Object *)\<close> after the receiver and an empty argument array, the tail
  slot is the null pointer, not a pointer into the argument array at offset \<open>0\<close>.
\<close>

theorem variadic_tail_counterexample:
  "UnpackValues (UnboxArgument no_conv) 1 [A_Object, T_size_t, A_ObjectPtr] 0 [] =
     Inr [S_value (N_uint64 0), S_ObjectPtr None] \<and>
   S_ObjectPtr None \<noteq> S_ObjectPtr (Some 0)"
  by (simp add: UnpackValues_def TupleTypeExtractor_def IsVariableArgumentPosition_def
        VariableUnpacker_UnpackInto_def Let_def numeral_2_eq_2)

section \<open>Properties of the invoker\<close>

lemma all_optional_HasNonOptionalArguments:
  assumes "\<forall>T\<in>set os. IsOptionalArgument T"
  shows "\<not> HasNonOptionalArguments (os @ [T_size_t, A_ObjectPtr])"
    and "os \<noteq> [] \<Longrightarrow> \<not> HasNonOptionalArguments os"
proof -
  show "\<not> HasNonOptionalArguments (os @ [T_size_t, A_ObjectPtr])"
    using assms
  proof (induction os)
    case Nil
    show ?case by (simp add: IsVariableArgumentPosition_def)
  next
    case (Cons a os)
    then have "IsOptionalArgument a" by simp
    then have "a \<noteq> T_size_t" by auto
    with Cons show ?case
      by (cases os) (simp_all add: IsVariableArgumentPosition_def IsNonOptionalArgument_iff)
  qed
  show "os \<noteq> [] \<Longrightarrow> \<not> HasNonOptionalArguments os"
    using assms
  proof (induction os)
    case Nil
    then show ?case by simp
  next
    case (Cons a os)
    then have a: "IsOptionalArgument a" by simp
    then have "a \<noteq> T_size_t" by auto
    with Cons a show ?case
      by (cases os) (simp_all add: IsVariableArgumentPosition_def IsNonOptionalArgument_iff)
  qed
qed

lemma optionals_HasOptionalArguments:
  assumes "\<forall>T\<in>set os. IsOptionalArgument T" and "vp = [] \<or> vp = [T_size_t, A_ObjectPtr]"
  shows "HasOptionalArguments (os @ vp) = Inr (os \<noteq> [])"
  using assms(1)
proof (induction os)
  case Nil
  from assms(2) show ?case by auto
next
  case (Cons a os)
  then have a: "IsOptionalArgument a" and os: "\<forall>T\<in>set os. IsOptionalArgument T" by simp_all
  show ?case
  proof (cases "os @ vp")
    case Nil
    with a show ?thesis by simp
  next
    case (Cons b bs)
    have "\<not> HasNonOptionalArguments (os @ vp)"
      using assms(2) all_optional_HasNonOptionalArguments [OF os] Cons by auto
    with Cons Cons.IH [OF os] a show ?thesis by (simp add: Let_def)
  qed
qed

lemma legal_HasOptionalArguments:
  assumes "\<forall>T\<in>set rs. IsNonOptionalArgument T" and "\<forall>T\<in>set os. IsOptionalArgument T"
      and "vp = [] \<or> vp = [T_size_t, A_ObjectPtr]"
  shows "HasOptionalArguments (rs @ os @ vp) = Inr (os \<noteq> [])"
  using assms(1)
proof (induction rs)
  case Nil
  show ?case by (simp add: optionals_HasOptionalArguments [OF assms(2,3)])
next
  case (Cons r rs)
  then have r: "\<not> IsOptionalArgument r" and rs: "\<forall>T\<in>set rs. IsNonOptionalArgument T"
    by (simp_all add: IsNonOptionalArgument_iff)
  show ?case
  proof (cases "rs @ os @ vp")
    case Nil
    with r show ?thesis by simp
  next
    case (Cons b bs)
    with Cons.IH [OF rs] r show ?thesis by (simp add: Let_def)
  qed
qed

lemma legal_FirstOptionalArgumentPosition:
  assumes "\<forall>T\<in>set rs. IsNonOptionalArgument T" and "\<forall>T\<in>set os. IsOptionalArgument T"
      and "os \<noteq> []"
  shows "FirstOptionalArgumentPositionHelper i (rs @ os @ vp) = i + length rs"
  using assms(1)
proof (induction rs arbitrary: i)
  case Nil
  from assms(2,3) show ?case by (cases os) simp_all
next
  case (Cons r rs)
  then have r: "\<not> IsOptionalArgument r" and rs: "\<forall>T\<in>set rs. IsNonOptionalArgument T"
    by (simp_all add: IsNonOptionalArgument_iff)
  from assms(3) have "rs @ os @ vp \<noteq> []" by simp
  with Cons.IH [OF rs, of "i + 1"] r show ?case by simp
qed

lemma legal_PackMatchingSize:
  assumes "\<forall>T\<in>set rs. IsNonOptionalArgument T" and "\<forall>T\<in>set os. IsOptionalArgument T"
      and "vp = [] \<or> vp = [T_size_t, A_ObjectPtr]"
      and "vp = [] \<longrightarrow> os = [] \<longrightarrow> \<not> HasVariableArguments rs"
  shows "PackMatchingSize (rs @ os @ vp) = Inr (length rs)"
proof (cases "os = []")
  case False
  with legal_HasOptionalArguments [OF assms(1-3)]
       legal_FirstOptionalArgumentPosition [OF assms(1,2) False, of 0 vp]
  show ?thesis by (simp add: PackMatchingSize_def FirstOptionalArgumentPosition_def)
next
  case True
  from assms(3) show ?thesis
  proof
    assume "vp = []"
    with True assms(4) legal_HasOptionalArguments [OF assms(1-3)] show ?thesis
      by (simp add: PackMatchingSize_def)
  next
    assume vp: "vp = [T_size_t, A_ObjectPtr]"
    have "HasVariableArguments (rs @ [T_size_t, A_ObjectPtr])"
      by (simp add: HasVariableArguments_append)
    with True vp legal_HasOptionalArguments [OF assms(1-3)] show ?thesis
      by (simp add: PackMatchingSize_def)
  qed
qed


lemma legal_signature:
  assumes "TArgs = pre @ rs @ os @ vp"
      and "length pre = length extraValues + 1"
      and "\<forall>T\<in>set rs. IsNonOptionalArgument T" and "\<forall>T\<in>set os. IsOptionalArgument T"
      and "vp = [] \<or> vp = [T_size_t, A_ObjectPtr]"
      and "vp = [] \<longrightarrow> \<not> HasVariableArguments TArgs"
  shows "PackMatchingSize_WithIgnore (length extraValues + 1) TArgs = Inr (length rs)"
    and "length TArgs - (length extraValues + 1) = length rs + length os + length vp"
    and "HasVariableArguments TArgs = (vp \<noteq> [])"
    and "drop (length extraValues + 1) TArgs = rs @ os @ vp"
proof -
  show d: "drop (length extraValues + 1) TArgs = rs @ os @ vp"
    using assms(1,2) by simp
  show "length TArgs - (length extraValues + 1) = length rs + length os + length vp"
    using assms(1,2) by simp
  show v: "HasVariableArguments TArgs = (vp \<noteq> [])"
  proof (cases "vp = []")
    case True
    with assms(6) show ?thesis by simp
  next
    case False
    with assms(5) have "TArgs = (pre @ rs @ os) @ [T_size_t, A_ObjectPtr]"
      using assms(1) by simp
    then have "HasVariableArguments TArgs"
      unfolding HasVariableArguments_iff by (rule exI)
    with False show ?thesis by simp
  qed
  have "vp = [] \<longrightarrow> os = [] \<longrightarrow> \<not> HasVariableArguments rs"
  proof (intro impI)
    assume "vp = []" and "os = []"
    with assms(1) have "TArgs = pre @ rs" by simp
    with assms(6) \<open>vp = []\<close> show "\<not> HasVariableArguments rs"
      using HasVariableArguments_prefix [of rs pre] by auto
  qed
  from legal_PackMatchingSize [OF assms(3,4,5) this]
  show "PackMatchingSize_WithIgnore (length extraValues + 1) TArgs = Inr (length rs)"
    using PackMatchingSize_WithIgnore_drop [of "length extraValues + 1" TArgs] assms(1,2) d
    by simp
qed

text \<open>
  C3. Let the signature, after the receiver and the extra values, be \<open>k\<close> required slots,
  then \<open>m\<close> optional slots, then possibly the variadic pair \<open>(size_t, Object *)\<close>, the
  signature being variadic only in the last case. Fewer than \<open>k\<close> arguments raise
  invalid-argument ("Illegal number of arguments to method call"); every count from \<open>k\<close>
  to \<open>k + m\<close> passes the validation and the call proceeds to unpack and invoke; more than
  \<open>k + m\<close> arguments raise invalid-argument unless the signature is variadic; a variadic
  signature accepts every count from \<open>k\<close> on and the count slot of the pair receives the
  number of arguments beyond the first \<open>k + m\<close> (none when there are at most \<open>k + m\<close>).
\<close>

theorem argument_count_is_validated:
  assumes "TArgs = pre @ rs @ os @ vp"
      and "length pre = length extraValues + 1"
      and "\<forall>T\<in>set rs. IsNonOptionalArgument T" and "\<forall>T\<in>set os. IsOptionalArgument T"
      and "vp = [] \<or> vp = [T_size_t, A_ObjectPtr]"
      and "vp = [] \<longrightarrow> \<not> HasVariableArguments TArgs"
  shows "let k = length rs; m = length os;
             call = InvokeFunctionFromPack unbox func TArgs contextObj packSize ppArgumentPack extraValues;
             unpacked = UnpackValues unbox (length extraValues + 1) TArgs packSize ppArgumentPack;
             proceeds = Inr (case unpacked of
                               Inl e \<Rightarrow> Inl e
                             | Inr parameters \<Rightarrow> InvokeAndBox_Call func contextObj parameters extraValues);
             rejected = Inr (Inl (invalid_argument ''Illegal number of arguments to method call''))
         in (packSize < k \<longrightarrow> call = rejected) \<and>
            (k \<le> packSize \<and> packSize \<le> k + m \<longrightarrow> call = proceeds) \<and>
            (k + m < packSize \<and> vp = [] \<longrightarrow> call = rejected) \<and>
            (k \<le> packSize \<and> vp \<noteq> [] \<longrightarrow>
               call = proceeds \<and>
               (\<forall>t. unpacked = Inr t \<longrightarrow>
                  t ! (k + m) = S_value (N_uint64 (of_nat (packSize - (k + m))))))"
proof -
  note l = legal_signature [OF assms]
  let ?n = "length extraValues + 1"
  let ?call = "InvokeFunctionFromPack unbox func TArgs contextObj packSize ppArgumentPack extraValues"
  let ?unpacked = "UnpackValues unbox ?n TArgs packSize ppArgumentPack"
  let ?proceeds = "Inr (case ?unpacked of
                          Inl e \<Rightarrow> Inl e
                        | Inr parameters \<Rightarrow> InvokeAndBox_Call func contextObj parameters extraValues)"
  let ?rejected = "Inr (Inl (invalid_argument ''Illegal number of arguments to method call''))"
  have call: "?call =
          (if packSize < length rs \<or> (packSize > length rs + length os + length vp \<and> vp = [])
           then ?rejected else ?proceeds)"
  proof -
    have m1: "PackMatchingSize_WithIgnore (Suc (length extraValues)) TArgs = Inr (length rs)"
      using l(1) by simp
    have m2: "length TArgs - Suc (length extraValues) = length rs + length os + length vp"
      using l(2) by simp
    show ?thesis
      by (simp add: InvokeFunctionFromPack_def Let_def m1 m2 l(3))
  qed
  have 1: "packSize < length rs \<longrightarrow> ?call = ?rejected"
    by (simp add: call)
  have 2: "length rs \<le> packSize \<and> packSize \<le> length rs + length os \<longrightarrow> ?call = ?proceeds"
    by (simp add: call)
  have 3: "length rs + length os < packSize \<and> vp = [] \<longrightarrow> ?call = ?rejected"
    by (auto simp: call)
  have 4: "length rs \<le> packSize \<and> vp \<noteq> [] \<longrightarrow> ?call = ?proceeds"
    by (auto simp: call)
  have 5: "vp \<noteq> [] \<longrightarrow> (\<forall>t. ?unpacked = Inr t \<longrightarrow>
             t ! (length rs + length os) =
               S_value (N_uint64 (of_nat (packSize - (length rs + length os)))))"
  proof (intro impI allI)
    fix t assume vp: "vp \<noteq> []" and u: "?unpacked = Inr t"
    with assms(5) have vpe: "vp = [T_size_t, A_ObjectPtr]" by simp
    have le: "?n \<le> length TArgs" using assms(1,2) by simp
    have TT: "TupleTypeExtractor ?n TArgs = (rs @ os) @ [T_size_t, A_ObjectPtr]"
      using l(4) vpe by (simp add: TupleTypeExtractor_def)
    have var: "HasVariableArguments (TupleTypeExtractor ?n TArgs)"
      unfolding TT by (simp only: HasVariableArguments_append)
    have n: "regular_slots (TupleTypeExtractor ?n TArgs) = length rs + length os"
      unfolding regular_slots_def TT by (simp add: HasVariableArguments_append2)
    note s = UnpackValues_slots [where unbox = unbox and packSize = packSize
                                   and ppArgumentPack = ppArgumentPack, OF le,
                                unfolded Let_def, THEN conjunct2, rule_format, OF u,
                                THEN conjunct2, THEN conjunct2, rule_format, OF var]
    show "t ! (length rs + length os) =
            S_value (N_uint64 (of_nat (packSize - (length rs + length os))))"
    proof (cases "length rs + length os < packSize")
      case True
      with s [THEN conjunct1] n show ?thesis by simp
    next
      case False
      then have "packSize \<le> length rs + length os" by simp
      with s [THEN conjunct2] n False show ?thesis by simp
    qed
  qed
  from 1 2 3 4 5 show ?thesis
    by (simp only: Let_def) blast
qed

lemma variadic_signature_split:
  "variadic_signature = [A_Object] @ [A_value T_int] @ [A_value (T_optional T_int)] @ [T_size_t, A_ObjectPtr]"
  "length [A_Object] = length ([] :: slot list) + 1"
  "\<forall>T\<in>set [A_value T_int]. IsNonOptionalArgument T"
  "\<forall>T\<in>set [A_value (T_optional T_int)]. IsOptionalArgument T"
  "[T_size_t, A_ObjectPtr] = [] \<or> [T_size_t, A_ObjectPtr] = [T_size_t, A_ObjectPtr]"
  "[T_size_t, A_ObjectPtr] = [] \<longrightarrow> \<not> HasVariableArguments variadic_signature"
  by (simp_all add: variadic_signature_def)

lemma variadic_call:
  "(case UnpackValues (UnboxArgument no_conv) (length ([] :: slot list) + 1) variadic_signature 4
           [boxed_int 7, boxed_int 8, boxed_int 9, boxed_int 10] of
      Inl e \<Rightarrow> Inl e
    | Inr parameters \<Rightarrow> InvokeAndBox_Call variadic_function (SyntheticObject 0) parameters []) =
   Inr (boxed_index 2)"
  using unpack_four
  by (simp add: InvokeAndBox_Call_def variadic_function_def box_defs boxed_index_def)

theorem argument_count_is_validated_witness:
  "variadic_signature =
     [A_Object] @ [A_value T_int] @ [A_value (T_optional T_int)] @ [T_size_t, A_ObjectPtr] \<and>
   InvokeFunctionFromPack (UnboxArgument no_conv) variadic_function variadic_signature
     (SyntheticObject 0) 0 [] [] =
     Inr (Inl (invalid_argument ''Illegal number of arguments to method call'')) \<and>
   InvokeFunctionFromPack (UnboxArgument no_conv) variadic_function variadic_signature
     (SyntheticObject 0) 4 [boxed_int 7, boxed_int 8, boxed_int 9, boxed_int 10] [] =
     Inr (Inr (boxed_index 2))"
proof -
  note t0 = argument_count_is_validated
              [OF variadic_signature_split, of "UnboxArgument no_conv" variadic_function
                  "SyntheticObject 0" 0 "[]", unfolded Let_def]
  note t4 = argument_count_is_validated
              [OF variadic_signature_split, of "UnboxArgument no_conv" variadic_function
                  "SyntheticObject 0" 4 "[boxed_int 7, boxed_int 8, boxed_int 9, boxed_int 10]",
               unfolded Let_def]
  have a: "InvokeFunctionFromPack (UnboxArgument no_conv) variadic_function variadic_signature
             (SyntheticObject 0) 0 [] [] =
           Inr (Inl (invalid_argument ''Illegal number of arguments to method call''))"
    using t0 [THEN conjunct1] by simp
  have b: "InvokeFunctionFromPack (UnboxArgument no_conv) variadic_function variadic_signature
             (SyntheticObject 0) 4 [boxed_int 7, boxed_int 8, boxed_int 9, boxed_int 10] [] =
           Inr (Inr (boxed_index 2))"
    using t4 [THEN conjunct2, THEN conjunct2, THEN conjunct2] variadic_call by simp
  from variadic_signature_split(1) a b show ?thesis by (intro conjI)
qed


end
